theory Spec2Isabelle
  imports Main "HOL-Library.Multiset"
begin

section \<open>The pushdown automaton of automata.py\<close>

text \<open>
  Symbols and state names are Python strings. An input is a sequence of symbols: the
  characters of a Python \<open>str\<close>, each a one-character string, or any other iterable of
  strings. The \<open>debug\<close> flag of \<open>simulate\<close> only prints and is left out.
\<close>

subsection \<open>Module constants and the two value classes\<close>

definition STACK_END :: string where
  "STACK_END = ''>''"

definition INPUT_END :: string where
  "INPUT_END = ''<''"

text \<open>\<open>TransitionFunctionValue(next_state, symbol_to_push)\<close>\<close>

datatype TransitionFunctionValue =
  TransitionFunctionValue (next_state: string) (symbols_to_push: "string list")

text \<open>
  \<open>TransitionFunctionInput(input_symbol, stack_top)\<close>; \<open>__hash__\<close> and \<open>__eq__\<close> compare the
  two fields, which is the equality of the datatype.
\<close>

datatype TransitionFunctionInput =
  TransitionFunctionInput (input_symbol: string) (stack_top: string)

text \<open>The exceptions that the code can raise.\<close>

datatype py_error =
  IndexError
  | KeyError
  | UnboundLocalError
  | ValueError string "string list"
    \<comment> \<open>\<open>ValueError(f"State {current_state} not in states {states}")\<close>: the two values
        that the message is formatted from\<close>

type_synonym transition_table =
  "string \<rightharpoonup> (TransitionFunctionInput \<rightharpoonup> TransitionFunctionValue)"

subsection \<open>The class \<open>Automata\<close>\<close>

text \<open>
  The private attributes \<open>__state\<close>, \<open>__stack\<close>, ... are the fields of the record. The
  stack is a Python list: \<open>append\<close> adds at the end and \<open>pop()\<close> removes the last
  element, so the top of the stack is the last element of the list.
\<close>

record automata =
  state :: string
  stack :: "string list"
  transitions :: transition_table
  states :: "string list"
  alphabet :: "string list"
  final_states :: "string list"
  rejecting_states :: "string list"
  initial_state :: string

text \<open>\<open>xs[0]\<close> and \<open>xs[-1]\<close>, which raise \<open>IndexError\<close> on the empty list.\<close>

definition py_first :: "'a list \<Rightarrow> py_error + 'a" where
  "py_first xs = (case xs of [] \<Rightarrow> Inl IndexError | x # _ \<Rightarrow> Inr x)"

definition py_last :: "'a list \<Rightarrow> py_error + 'a" where
  "py_last xs = (if xs = [] then Inl IndexError else Inr (last xs))"

text \<open>
  \<open>Automata.__init__\<close> (lines 63 to 76). The arguments \<open>initial_state\<close> and
  \<open>final_states\<close> may be \<open>None\<close>.
\<close>

definition automata_init ::
  "string list \<Rightarrow> string list \<Rightarrow> transition_table \<Rightarrow> string option \<Rightarrow>
   string list option \<Rightarrow> string list \<Rightarrow> py_error + automata" where
  "automata_init sts alph tbl init fin rej =
     (case (case init of None \<Rightarrow> py_first sts | Some i \<Rightarrow> Inr i) of
        Inl e \<Rightarrow> Inl e
      | Inr i \<Rightarrow>
          (case (case fin of
                   None \<Rightarrow> (case py_last sts of Inl e \<Rightarrow> Inl e | Inr s \<Rightarrow> Inr [s])
                 | Some f \<Rightarrow> Inr f) of
             Inl e \<Rightarrow> Inl e
           | Inr f \<Rightarrow>
               Inr \<lparr> state = i, stack = [] @ [STACK_END], transitions = tbl,
                     states = sts, alphabet = alph, final_states = f,
                     rejecting_states = rej, initial_state = i \<rparr>))"

text \<open>
  One iteration of the loop of \<open>simulate\<close> (lines 88 to 115). The first component is
  \<open>None\<close> when the loop goes on to the next symbol, \<open>Some (Inr b)\<close> when the iteration
  executes \<open>return b\<close>, and \<open>Some (Inl e)\<close> when it raises \<open>e\<close>; the second component is
  the object as the iteration leaves it.
\<close>

definition step :: "automata \<Rightarrow> string \<Rightarrow> (py_error + bool) option \<times> automata" where
  "step a symbol =
     (if symbol \<notin> set (alphabet a) then (Some (Inr False), a)
      else if stack a = [] then (Some (Inl IndexError), a)
      else
        let transition_input = TransitionFunctionInput symbol (last (stack a));
            a1 = a\<lparr>stack := butlast (stack a)\<rparr>
        in case transitions a1 (state a1) of
             None \<Rightarrow> (Some (Inl KeyError), a1)
           | Some table \<Rightarrow>
               (case table transition_input of
                  None \<Rightarrow> (Some (Inr False), a1)
                | Some transition_value \<Rightarrow>
                    let a2 = a1\<lparr>state := next_state transition_value\<rparr>;
                        a3 = a2\<lparr>stack := stack a2 @ symbols_to_push transition_value\<rparr>
                    in if state a3 \<in> set (rejecting_states a3) then (Some (Inr False), a3)
                       else if state a3 \<in> set (final_states a3) then (Some (Inr True), a3)
                       else (None, a3)))"

text \<open>
  The statement after the loop (lines 116 to 118). The \<open>or\<close> evaluates
  \<open>self.__stack[-1]\<close> only when the state is not final; on an empty stack that raises.
\<close>

definition after_loop :: "automata \<Rightarrow> (py_error + bool) \<times> automata" where
  "after_loop a =
     (if state a \<in> set (final_states a) then (Inr True, a)
      else case py_last (stack a) of
             Inl e \<Rightarrow> (Inl e, a)
           | Inr t \<Rightarrow> (if t = STACK_END then (Inr True, a) else (Inr False, a)))"

text \<open>
  \<open>Automata.simulate\<close>: the result of the call, or the exception it raises, and the
  object after the call.
\<close>

fun simulate :: "automata \<Rightarrow> string list \<Rightarrow> (py_error + bool) \<times> automata" where
  "simulate a [] = after_loop a"
| "simulate a (symbol # rest) =
     (case step a symbol of
        (Some r, a') \<Rightarrow> (r, a')
      | (None, a') \<Rightarrow> simulate a' rest)"

text \<open>
  The object after the loop has consumed every symbol of the input with no \<open>return\<close> and
  no exception inside the loop; \<open>None\<close> when some iteration returns or raises.
\<close>

fun consume :: "automata \<Rightarrow> string list \<Rightarrow> automata option" where
  "consume a [] = Some a"
| "consume a (symbol # rest) =
     (case step a symbol of
        (Some r, a') \<Rightarrow> None
      | (None, a') \<Rightarrow> consume a' rest)"

subsection \<open>The automaton built under \<open>__main__\<close>\<close>

definition transition_function :: transition_table where
  "transition_function = map_of
     [(''q0'', map_of
         [(TransitionFunctionInput ''0'' STACK_END, TransitionFunctionValue ''q1'' [''>'', ''0'']),
          (TransitionFunctionInput ''0'' ''0'', TransitionFunctionValue ''q1'' [''0'', ''0'']),
          (TransitionFunctionInput ''0'' ''1'', TransitionFunctionValue ''q1'' []),
          (TransitionFunctionInput ''1'' STACK_END, TransitionFunctionValue ''q0'' [''>'', ''1'']),
          (TransitionFunctionInput ''1'' ''0'', TransitionFunctionValue ''q0'' []),
          (TransitionFunctionInput ''1'' ''1'', TransitionFunctionValue ''q0'' [''1'', ''1'']),
          (TransitionFunctionInput INPUT_END STACK_END, TransitionFunctionValue ''qA'' [''>'']),
          (TransitionFunctionInput INPUT_END ''0'', TransitionFunctionValue ''qR'' []),
          (TransitionFunctionInput INPUT_END ''1'', TransitionFunctionValue ''qR'' [])]),
      (''q1'', map_of
         [(TransitionFunctionInput ''0'' STACK_END, TransitionFunctionValue ''q0'' [''>'']),
          (TransitionFunctionInput ''0'' ''0'', TransitionFunctionValue ''q0'' [''0'']),
          (TransitionFunctionInput ''0'' ''1'', TransitionFunctionValue ''q0'' [''1'']),
          (TransitionFunctionInput ''1'' STACK_END, TransitionFunctionValue ''q1'' [STACK_END, ''1'']),
          (TransitionFunctionInput ''1'' ''0'', TransitionFunctionValue ''q1'' []),
          (TransitionFunctionInput ''1'' ''1'', TransitionFunctionValue ''q1'' [''1'', ''1'']),
          (TransitionFunctionInput INPUT_END STACK_END, TransitionFunctionValue ''qR'' [''>'']),
          (TransitionFunctionInput INPUT_END ''0'', TransitionFunctionValue ''qR'' [''0'']),
          (TransitionFunctionInput INPUT_END ''1'', TransitionFunctionValue ''qR'' [''1''])])]"

text \<open>
  The object that \<open>Automata(states, alphabet, transition_function, initial_state,
  final_states, rejecting_states)\<close> of lines 261 to 273 constructs.
\<close>

definition main_automata :: automata where
  "main_automata =
     \<lparr> state = ''q0'', stack = [STACK_END], transitions = transition_function,
       states = [''q0'', ''q1'', ''qR'', ''qA''], alphabet = [''0'', ''1'', ''<''],
       final_states = [''qA''], rejecting_states = [''qR''], initial_state = ''q0'' \<rparr>"

text \<open>
  The configurations that this automaton reaches on inputs over \<open>0\<close> and \<open>1\<close>: the
  state is \<open>q0\<close> or \<open>q1\<close>, and the stack is the sentinel under \<open>k\<close> copies of one symbol
  \<open>c\<close>. \<open>surplus\<close> is what such a configuration records of the input read so far: the
  number of \<open>0\<close>s minus twice the number of \<open>1\<close>s.
\<close>

definition main_config :: "string \<Rightarrow> nat \<Rightarrow> string \<Rightarrow> automata" where
  "main_config q k c = main_automata\<lparr>state := q, stack := STACK_END # replicate k c\<rparr>"

definition surplus :: "string \<Rightarrow> nat \<Rightarrow> string \<Rightarrow> int" where
  "surplus q k c =
     (if c = ''0'' then 2 * int k else - (2 * int k)) - (if q = ''q1'' then 1 else 0)"

subsection \<open>Small automata used as concrete inputs\<close>

text \<open>
  \<open>Automata(["p0"], ("a",), {"p0": {TransitionFunctionInput("a", ">"):
  TransitionFunctionValue("p0", [])}}, "p0", [], [])\<close>: its only transition pops the
  sentinel and pushes nothing.
\<close>

definition pure_pop_automata :: automata where
  "pure_pop_automata =
     \<lparr> state = ''p0'', stack = [STACK_END],
       transitions = map_of
         [(''p0'', map_of [(TransitionFunctionInput ''a'' STACK_END, TransitionFunctionValue ''p0'' [])])],
       states = [''p0''], alphabet = [''a''], final_states = [], rejecting_states = [],
       initial_state = ''p0'' \<rparr>"

text \<open>
  \<open>Automata(["p0", "p1"], ("a",), {"p0": {TransitionFunctionInput("a", ">"):
  TransitionFunctionValue("p1", push)}}, "p0", [], [])\<close>: the state \<open>p1\<close> is declared and
  reachable, and has no entry in the transitions.
\<close>

definition dangling_automata :: "string list \<Rightarrow> automata" where
  "dangling_automata push =
     \<lparr> state = ''p0'', stack = [STACK_END],
       transitions = map_of
         [(''p0'', map_of [(TransitionFunctionInput ''a'' STACK_END, TransitionFunctionValue ''p1'' push)])],
       states = [''p0'', ''p1''], alphabet = [''a''], final_states = [], rejecting_states = [],
       initial_state = ''p0'' \<rparr>"

text \<open>
  \<open>Automata(["p0", "p1"], ("a",), {"p0": {TransitionFunctionInput("a", ">"):
  TransitionFunctionValue("p1", [">"])}}, "p0", ["p1"], ["p1"])\<close>: the state \<open>p1\<close> is both
  final and rejecting.
\<close>

definition overlap_automata :: automata where
  "overlap_automata =
     \<lparr> state = ''p0'', stack = [STACK_END],
       transitions = map_of
         [(''p0'', map_of [(TransitionFunctionInput ''a'' STACK_END, TransitionFunctionValue ''p1'' [''>''])])],
       states = [''p0'', ''p1''], alphabet = [''a''], final_states = [''p1''],
       rejecting_states = [''p1''], initial_state = ''p0'' \<rparr>"

section \<open>The definition-file parser \<open>Automata.create_from_file\<close>\<close>

text \<open>
  The file is read with \<open>readlines\<close>; the model starts from the list of lines that
  call returns, each with its line terminator. A line is a Python \<open>str\<close>: a sequence of
  Unicode code points, here natural numbers (below \<open>0x110000\<close> in Python).
\<close>

type_synonym pystr = "nat list"

text \<open>The \<open>str\<close> of an ASCII literal of the source.\<close>

definition ascii :: "string \<Rightarrow> pystr" where
  "ascii s = map of_char s"

text \<open>
  The engine above holds a Python string as a \<open>string\<close>, which it only compares with
  other strings: that \<open>string\<close> is the UTF-8 encoding of the \<open>str\<close>, for ASCII text the
  text itself, and two strings with the same encoding are the same string (\<open>utf8_ascii\<close>
  and \<open>utf8_inj\<close> below). The strings that the parser hands to the constructor and
  stores in the two value classes are encoded with \<open>utf8\<close>.
\<close>

definition utf8_char :: "nat \<Rightarrow> string" where
  "utf8_char c =
     (if c < 0x80 then [char_of c]
      else if c < 0x800 then
        [char_of (0xC0 + c div 0x40), char_of (0x80 + c mod 0x40)]
      else if c < 0x10000 then
        [char_of (0xE0 + c div 0x1000), char_of (0x80 + c div 0x40 mod 0x40),
         char_of (0x80 + c mod 0x40)]
      else
        [char_of (0xF0 + c div 0x40000), char_of (0x80 + c div 0x1000 mod 0x40),
         char_of (0x80 + c div 0x40 mod 0x40), char_of (0x80 + c mod 0x40)])"

definition utf8 :: "pystr \<Rightarrow> string" where
  "utf8 s = concat (map utf8_char s)"

subsection \<open>String methods\<close>

text \<open>
  The characters that \<open>str.strip()\<close> removes: those for which \<open>str.isspace()\<close> holds,
  which are these 29 code points.
\<close>

definition is_space :: "nat \<Rightarrow> bool" where
  "is_space c =
     (c \<in> set [0x09, 0x0A, 0x0B, 0x0C, 0x0D, 0x1C, 0x1D, 0x1E, 0x1F, 0x20, 0x85, 0xA0,
               0x1680, 0x2000, 0x2001, 0x2002, 0x2003, 0x2004, 0x2005, 0x2006, 0x2007,
               0x2008, 0x2009, 0x200A, 0x2028, 0x2029, 0x202F, 0x205F, 0x3000])"

text \<open>\<open>s.strip()\<close>\<close>

definition py_strip :: "pystr \<Rightarrow> pystr" where
  "py_strip s = rev (dropWhile is_space (rev (dropWhile is_space s)))"

text \<open>\<open>s.startswith(p)\<close>\<close>

definition startswith :: "pystr \<Rightarrow> pystr \<Rightarrow> bool" where
  "startswith s p = (take (length p) s = p)"

text \<open>\<open>p in s\<close> for two strings\<close>

fun py_contains :: "pystr \<Rightarrow> pystr \<Rightarrow> bool" where
  "py_contains p [] = (p = [])"
| "py_contains p (c # cs) = (if startswith (c # cs) p then True else py_contains p cs)"

text \<open>
  \<open>s.split(sep)\<close> for a non-empty separator: the pieces between the occurrences of
  \<open>sep\<close>, found from left to right without overlap. \<open>cur\<close> is the piece being read.
  (With an empty separator Python raises; the parser never passes one.)
\<close>

function split_from :: "pystr \<Rightarrow> pystr \<Rightarrow> pystr \<Rightarrow> pystr list" where
  "split_from sep cur [] = [cur]"
| "split_from sep cur (c # cs) =
     (if sep \<noteq> [] \<and> startswith (c # cs) sep
      then cur # split_from sep [] (drop (length sep) (c # cs))
      else split_from sep (cur @ [c]) cs)"
  by pat_completeness auto
termination
  by (relation "measure (\<lambda>(sep, cur, s). length s)") auto

definition py_split :: "pystr \<Rightarrow> pystr \<Rightarrow> pystr list" where
  "py_split s sep = split_from sep [] s"

text \<open>\<open>xs[i]\<close> for a non-negative index\<close>

definition py_index :: "'a list \<Rightarrow> nat \<Rightarrow> py_error + 'a" where
  "py_index xs i = (if i < length xs then Inr (xs ! i) else Inl IndexError)"

subsection \<open>The two regular expressions\<close>

text \<open>
  \<open>re.match\<close> is a backtracking matcher anchored at the start of the string. The
  patterns of the parser are sequences of literal text and greedy groups over one
  character class, so the matcher is written in continuation style: \<open>lit\<close> reads literal
  text, \<open>greedy_star\<close> reads as many characters of the class as it can and gives back one
  character at a time while the rest of the pattern fails.
\<close>

text \<open>
  \<open>\w\<close> in a \<open>str\<close> pattern: the underscore and the characters for which
  \<open>str.isalnum()\<close> holds. Among the ASCII characters these are the letters and the
  digits. For the others the answer is a table of the Unicode database of the
  interpreter, which the repository does not contain: it is the parameter \<open>alnum\<close>.
\<close>

definition is_word :: "(nat \<Rightarrow> bool) \<Rightarrow> nat \<Rightarrow> bool" where
  "is_word alnum c =
     (if c < 0x80
      then (0x30 \<le> c \<and> c \<le> 0x39) \<or> (0x41 \<le> c \<and> c \<le> 0x5A) \<or> c = 0x5F
           \<or> (0x61 \<le> c \<and> c \<le> 0x7A)
      else alnum c)"

text \<open>\<open>.\<close> matches every character but the newline.\<close>

definition is_dot :: "nat \<Rightarrow> bool" where
  "is_dot c = (c \<noteq> 0x0A)"

definition lit :: "pystr \<Rightarrow> (pystr \<Rightarrow> 'a option) \<Rightarrow> pystr \<Rightarrow> 'a option" where
  "lit p k s = (if startswith s p then k (drop (length p) s) else None)"

fun greedy_star ::
  "(nat \<Rightarrow> bool) \<Rightarrow> (pystr \<Rightarrow> pystr \<Rightarrow> 'a option) \<Rightarrow> pystr \<Rightarrow> pystr \<Rightarrow> 'a option" where
  "greedy_star p k g [] = k g []"
| "greedy_star p k g (c # cs) =
     (if p c
      then (case greedy_star p k (g @ [c]) cs of
              Some r \<Rightarrow> Some r
            | None \<Rightarrow> k g (c # cs))
      else k g (c # cs))"

fun greedy_plus ::
  "(nat \<Rightarrow> bool) \<Rightarrow> (pystr \<Rightarrow> pystr \<Rightarrow> 'a option) \<Rightarrow> pystr \<Rightarrow> 'a option" where
  "greedy_plus p k [] = None"
| "greedy_plus p k (c # cs) = (if p c then greedy_star p k [c] cs else None)"

text \<open>
  \<open>re.match(r"^\w+:$", line)\<close>: \<open>$\<close> matches at the end of the string and before a
  newline that ends it.
\<close>

definition match_header :: "(nat \<Rightarrow> bool) \<Rightarrow> pystr \<Rightarrow> bool" where
  "match_header alnum line =
     (greedy_plus (is_word alnum)
        (\<lambda>g. lit (ascii '':'') (\<lambda>r. if r = [] \<or> r = [0x0A] then Some g else None)) line
      \<noteq> None)"

text \<open>
  \<open>re.match(r"\((.+), (.+)\) -> (\w+) \[(.*)\]", line)\<close>: the four groups of the match,
  \<open>None\<close> when the line does not match.
\<close>

definition match_transition ::
  "(nat \<Rightarrow> bool) \<Rightarrow> pystr \<Rightarrow> (pystr \<times> pystr \<times> pystr \<times> pystr) option" where
  "match_transition alnum line =
     lit (ascii ''('')
       (greedy_plus is_dot (\<lambda>g1.
          lit (ascii '', '')
            (greedy_plus is_dot (\<lambda>g2.
               lit (ascii '') -> '')
                 (greedy_plus (is_word alnum) (\<lambda>g3.
                    lit (ascii '' ['')
                      (greedy_star is_dot (\<lambda>g4.
                         lit (ascii '']'') (\<lambda>r. Some (g1, g2, g3, g4))) []))))))) line"

subsection \<open>The loop over the lines\<close>

text \<open>
  The local variable \<open>current_state\<close> is not bound before the first
  \<open>transition_function:\<close> line or state header.
\<close>

datatype binding = Unbound | PyNone | Str pystr

text \<open>The local variables of \<open>create_from_file\<close>.\<close>

record locals =
  states_loc :: "pystr list"
  alphabet_loc :: "pystr list"
  initial_state_loc :: "pystr option"
  final_states_loc :: "pystr list"
  rejecting_states_loc :: "pystr list"
  transition_function_loc :: transition_table
  current_state :: binding

definition initial_locals :: locals where
  "initial_locals =
     \<lparr> states_loc = [], alphabet_loc = [], initial_state_loc = None, final_states_loc = [],
       rejecting_states_loc = [], transition_function_loc = Map.empty,
       current_state = Unbound \<rparr>"

text \<open>\<open>line.split(":")[1].strip()\<close>\<close>

definition after_colon :: "pystr \<Rightarrow> py_error + pystr" where
  "after_colon line =
     (case py_index (py_split line (ascii '':'')) 1 of
        Inl e \<Rightarrow> Inl e
      | Inr x \<Rightarrow> Inr (py_strip x))"

text \<open>
  Lines 179 to 202: the entry that a matched transition line stores, from the four
  groups of the match. The source assigns \<open>stack_top\<close> and \<open>stack_action\<close> again; the
  successive values carry a number here.
\<close>

definition transition_entry ::
  "pystr \<times> pystr \<times> pystr \<times> pystr \<Rightarrow> TransitionFunctionInput \<times> TransitionFunctionValue" where
  "transition_entry groups =
     (case groups of (input_symbol0, stack_top0, next_state0, stack_action0) \<Rightarrow>
        let stack_top1 =
              (if stack_top0 = ascii ''STACK_END'' then ascii STACK_END
               else if stack_top0 = ascii ''INPUT_END'' then ascii INPUT_END
               else stack_top0);
            stack_action1 =
              (if stack_action0 \<noteq> [] then py_split stack_action0 (ascii '', '') else []);
            stack_action2 =
              (if stack_action1 \<noteq> []
               then map (\<lambda>x. if py_strip x = ascii ''STACK_END'' then ascii STACK_END
                              else if py_strip x = ascii ''INPUT_END'' then ascii INPUT_END
                              else py_strip x) stack_action1
               else stack_action1)
        in (TransitionFunctionInput (utf8 input_symbol0) (utf8 stack_top1),
            TransitionFunctionValue (utf8 next_state0) (map utf8 stack_action2)))"

text \<open>
  \<open>transition_function[current_state][key] = value\<close> on a \<open>defaultdict(dict)\<close>: a
  missing state gets an empty dictionary first.
\<close>

definition store_transition ::
  "transition_table \<Rightarrow> string \<Rightarrow> TransitionFunctionInput \<times> TransitionFunctionValue \<Rightarrow>
   transition_table" where
  "store_transition tf cs entry =
     tf(cs \<mapsto> (case tf cs of None \<Rightarrow> Map.empty | Some d \<Rightarrow> d)(fst entry \<mapsto> snd entry))"

text \<open>
  One iteration of the loop over the lines (lines 156 to 202). The \<open>ValueError\<close> carries
  the state and the list of states that its message is formatted from.
\<close>

definition parse_line :: "(nat \<Rightarrow> bool) \<Rightarrow> locals \<Rightarrow> pystr \<Rightarrow> py_error + locals" where
  "parse_line alnum v raw =
     (let line = py_strip raw in
      if startswith line (ascii ''#'') \<or> line = [] then Inr v
      else if startswith line (ascii ''states:'') then
        (case after_colon line of Inl e \<Rightarrow> Inl e
         | Inr x \<Rightarrow> Inr (v\<lparr>states_loc := py_split x (ascii '', '')\<rparr>))
      else if startswith line (ascii ''alphabet:'') then
        (case after_colon line of Inl e \<Rightarrow> Inl e
         | Inr x \<Rightarrow> Inr (v\<lparr>alphabet_loc := py_split x (ascii '', '')\<rparr>))
      else if startswith line (ascii ''initial_state:'') then
        (case after_colon line of Inl e \<Rightarrow> Inl e
         | Inr x \<Rightarrow> Inr (v\<lparr>initial_state_loc := Some x\<rparr>))
      else if startswith line (ascii ''final_states:'') then
        (case after_colon line of Inl e \<Rightarrow> Inl e
         | Inr x \<Rightarrow> Inr (v\<lparr>final_states_loc := py_split x (ascii '', '')\<rparr>))
      else if startswith line (ascii ''rejecting_states:'') then
        (case after_colon line of Inl e \<Rightarrow> Inl e
         | Inr x \<Rightarrow> Inr (v\<lparr>rejecting_states_loc := py_split x (ascii '', '')\<rparr>))
      else if startswith line (ascii ''transition_function:'') then
        Inr (v\<lparr>current_state := PyNone\<rparr>)
      else if match_header alnum line then
        (if butlast line \<notin> set (states_loc v)
         then Inl (ValueError (utf8 (butlast line)) (map utf8 (states_loc v)))
         else Inr (v\<lparr>current_state := Str (butlast line)\<rparr>))
      else
        (case current_state v of
           Unbound \<Rightarrow> Inl UnboundLocalError
         | PyNone \<Rightarrow> Inr v
         | Str cs \<Rightarrow>
             if cs \<noteq> [] \<and> py_contains (ascii ''->'') line then
               (case match_transition alnum line of
                  None \<Rightarrow> Inr v
                | Some groups \<Rightarrow>
                    Inr (v\<lparr>transition_function_loc :=
                           store_transition (transition_function_loc v) (utf8 cs)
                             (transition_entry groups)\<rparr>))
             else Inr v))"

fun parse_lines :: "(nat \<Rightarrow> bool) \<Rightarrow> locals \<Rightarrow> pystr list \<Rightarrow> py_error + locals" where
  "parse_lines alnum v [] = Inr v"
| "parse_lines alnum v (line # lines) =
     (case parse_line alnum v line of
        Inl e \<Rightarrow> Inl e
      | Inr v' \<Rightarrow> parse_lines alnum v' lines)"

text \<open>
  \<open>create_from_file\<close>, from the lines of the file to the call of the constructor at
  lines 204 to 211. \<open>final_states\<close> is a list there, never \<open>None\<close>.
\<close>

definition create_from_file :: "(nat \<Rightarrow> bool) \<Rightarrow> pystr list \<Rightarrow> py_error + automata" where
  "create_from_file alnum lines =
     (case parse_lines alnum initial_locals lines of
        Inl e \<Rightarrow> Inl e
      | Inr v \<Rightarrow>
          automata_init (map utf8 (states_loc v)) (map utf8 (alphabet_loc v))
            (transition_function_loc v) (map_option utf8 (initial_state_loc v))
            (Some (map utf8 (final_states_loc v))) (map utf8 (rejecting_states_loc v)))"

text \<open>
  The words that a section line starts with; a line made of one of them and a colon is
  taken by the branches of lines 160 to 171, before the state-header branch.
\<close>

definition section_keywords :: "pystr list" where
  "section_keywords =
     map ascii [''states'', ''alphabet'', ''initial_state'', ''final_states'',
                ''rejecting_states'', ''transition_function'']"

text \<open>
  The reserved names as the specification describes them: \<open>STACK_END\<close> and \<open>INPUT_END\<close>
  stand for the sentinel and the input-end marker, every other token for itself.
\<close>

definition reserved_symbol :: "pystr \<Rightarrow> pystr" where
  "reserved_symbol x =
     (if x = ascii ''STACK_END'' then ascii ''>''
      else if x = ascii ''INPUT_END'' then ascii ''<''
      else x)"

text \<open>A definition file used as a concrete input.\<close>

definition example_file :: "pystr list" where
  "example_file =
     map ascii
       [''states: q0, qA'' @ [CHR 0x0A],
        ''alphabet: 0, INPUT_END'' @ [CHR 0x0A],
        ''initial_state: q0'' @ [CHR 0x0A],
        ''final_states: qA'' @ [CHR 0x0A],
        ''transition_function:'' @ [CHR 0x0A],
        ''    q0:'' @ [CHR 0x0A],
        ''        (0, STACK_END) -> q0 [STACK_END, 0]'' @ [CHR 0x0A],
        ''        (INPUT_END, STACK_END) -> qA [STACK_END]'' @ [CHR 0x0A]]"

section \<open>Properties of the engine\<close>

lemmas engine_defs = step_def after_loop_def py_last_def Let_def STACK_END_def INPUT_END_def

lemmas main_defs = main_automata_def transition_function_def engine_defs

lemma step_static:
  "step a symbol = (r, a') \<Longrightarrow>
     transitions a' = transitions a \<and> alphabet a' = alphabet a \<and>
     final_states a' = final_states a \<and> rejecting_states a' = rejecting_states a \<and>
     states a' = states a \<and> initial_state a' = initial_state a"
  by (auto simp: step_def Let_def split: if_splits option.splits)

lemma consume_static:
  "consume a input = Some a' \<Longrightarrow>
     transitions a' = transitions a \<and> alphabet a' = alphabet a \<and>
     final_states a' = final_states a \<and> rejecting_states a' = rejecting_states a \<and>
     states a' = states a \<and> initial_state a' = initial_state a"
proof (induction input arbitrary: a)
  case Nil
  then show ?case by simp
next
  case (Cons symbol rest)
  then obtain a1 where s: "step a symbol = (None, a1)" and c: "consume a1 rest = Some a'"
    by (auto split: prod.splits option.splits)
  from Cons.IH [OF c] step_static [OF s] show ?case by simp
qed

text \<open>A run that has consumed a prefix goes on from the object the prefix left.\<close>

lemma simulate_consume_append:
  "consume a pre = Some a' \<Longrightarrow> simulate a (pre @ rest) = simulate a' rest"
  by (induction pre arbitrary: a) (auto split: prod.splits option.splits)

text \<open>A run that returned or raised inside a prefix never looks at the rest.\<close>

lemma simulate_stopped_append:
  "consume a pre = None \<Longrightarrow> simulate a (pre @ rest) = simulate a pre"
  by (induction pre arbitrary: a) (auto split: prod.splits option.splits)

lemma main_automata_init:
  "automata_init [''q0'', ''q1'', ''qR'', ''qA''] [''0'', ''1'', ''<''] transition_function
     (Some ''q0'') (Some [''qA'']) [''qR''] = Inr main_automata"
  by (simp add: automata_init_def main_automata_def)

lemma automata_init_fresh:
  assumes "automata_init sts alph tbl init fin rej = Inr a"
  shows "stack a = [STACK_END]" and "transitions a = tbl" and "alphabet a = alph"
    and "rejecting_states a = rej" and "state a = initial_state a"
  using assms
  by (auto simp: automata_init_def split: sum.splits option.splits)

text \<open>
  C9. On a freshly constructed automaton the stack is exactly the stack-bottom sentinel,
  and \<open>simulate\<close> of the empty input returns \<open>True\<close>, whatever the initial, final and
  rejecting states are.
\<close>

theorem simulate_empty_input_fresh:
  "automata_init sts alph tbl init fin rej = Inr a \<Longrightarrow>
     stack a = [STACK_END] \<and> fst (simulate a []) = Inr True"
  by (auto simp: automata_init_def after_loop_def py_last_def split: sum.splits option.splits)

theorem simulate_empty_input_fresh_witness:
  "automata_init [''q0'', ''q1''] [''0''] Map.empty (Some ''q1'') (Some [''q0'']) [''q1'']
     = Inr \<lparr> state = ''q1'', stack = [STACK_END], transitions = Map.empty,
             states = [''q0'', ''q1''], alphabet = [''0''], final_states = [''q0''],
             rejecting_states = [''q1''], initial_state = ''q1'' \<rparr>
   \<and> fst (simulate \<lparr> state = ''q1'', stack = [STACK_END], transitions = Map.empty,
             states = [''q0'', ''q1''], alphabet = [''0''], final_states = [''q0''],
             rejecting_states = [''q1''], initial_state = ''q1'' \<rparr> []) = Inr True"
proof -
  have h: "automata_init [''q0'', ''q1''] [''0''] Map.empty (Some ''q1'') (Some [''q0'']) [''q1'']
     = Inr \<lparr> state = ''q1'', stack = [STACK_END], transitions = Map.empty,
             states = [''q0'', ''q1''], alphabet = [''0''], final_states = [''q0''],
             rejecting_states = [''q1''], initial_state = ''q1'' \<rparr>"
    by (simp add: automata_init_def)
  from simulate_empty_input_fresh [OF h] h show ?thesis by simp
qed

text \<open>
  C3. When the loop has consumed every symbol of the input without returning, \<open>simulate\<close>
  leaves the object as the loop left it and returns \<open>True\<close> exactly when the current
  state is a final state or the top of the stack is the stack-bottom sentinel; with a
  symbol on the stack it returns the truth value of that disjunction, so it accepts
  from a state that is neither final nor rejecting whenever the top is the sentinel.
\<close>

theorem simulate_after_all_input:
  "consume a input = Some a' \<Longrightarrow>
     snd (simulate a input) = a' \<and>
     (fst (simulate a input) = Inr True \<longleftrightarrow>
        state a' \<in> set (final_states a') \<or> (stack a' \<noteq> [] \<and> last (stack a') = STACK_END)) \<and>
     (stack a' \<noteq> [] \<longrightarrow>
        fst (simulate a input) =
          Inr (state a' \<in> set (final_states a') \<or> last (stack a') = STACK_END))"
proof -
  assume c: "consume a input = Some a'"
  have "simulate a input = after_loop a'"
    using simulate_consume_append [OF c, of "[]"] by simp
  then show ?thesis
    by (simp add: after_loop_def py_last_def)
qed

theorem simulate_after_all_input_witness:
  "consume main_automata [''1'', ''0''] = Some (main_automata\<lparr>state := ''q1''\<rparr>) \<and>
   ''q1'' \<notin> set (final_states main_automata) \<and>
   ''q1'' \<notin> set (rejecting_states main_automata) \<and>
   stack (main_automata\<lparr>state := ''q1''\<rparr>) = [STACK_END] \<and>
   fst (simulate main_automata [''1'', ''0'']) = Inr True"
proof -
  have c: "consume main_automata [''1'', ''0''] = Some (main_automata\<lparr>state := ''q1''\<rparr>)"
    by (simp add: main_defs)
  from simulate_after_all_input [OF c] c show ?thesis
    by (simp add: main_automata_def STACK_END_def)
qed

text \<open>
  C4, as the claim states it, fails: the automaton of \<open>__main__\<close> reaches its final state
  \<open>qA\<close> on the marker \<open><\<close> and returns \<open>True\<close> before it looks at the symbol \<open>x\<close>, which
  is outside the alphabet.
\<close>

theorem simulate_outside_alphabet_counterexample:
  "''x'' \<in> set [''<'', ''x''] \<and> ''x'' \<notin> set (alphabet main_automata) \<and>
   fst (simulate main_automata [''<'', ''x'']) = Inr True"
  by (simp add: main_defs)

text \<open>
  C4, amended. On an input with a symbol outside the alphabet, \<open>simulate\<close> returns
  \<open>False\<close> at that symbol when the loop reaches it, that is when no earlier symbol made
  the call return or raise; otherwise the call ends as it does on the symbols before it.
\<close>

theorem simulate_outside_alphabet:
  "symbol \<notin> set (alphabet a) \<Longrightarrow>
     simulate a (pre @ symbol # rest) =
       (case consume a pre of
          Some a' \<Rightarrow> (Inr False, a')
        | None \<Rightarrow> simulate a pre)"
proof (cases "consume a pre")
  case None
  then show ?thesis by (simp add: simulate_stopped_append)
next
  case (Some a')
  assume "symbol \<notin> set (alphabet a)"
  with consume_static [OF Some] have "symbol \<notin> set (alphabet a')" by simp
  then have "simulate a' (symbol # rest) = (Inr False, a')"
    by (simp add: step_def)
  with Some show ?thesis by (simp add: simulate_consume_append)
qed

theorem simulate_outside_alphabet_witness:
  "''x'' \<notin> set (alphabet main_automata) \<and>
   simulate main_automata ([''1'', ''0''] @ ''x'' # [''0''])
     = (Inr False, main_automata\<lparr>state := ''q1''\<rparr>)"
proof -
  have h: "''x'' \<notin> set (alphabet main_automata)"
    by (simp add: main_automata_def)
  have c: "consume main_automata [''1'', ''0''] = Some (main_automata\<lparr>state := ''q1''\<rparr>)"
    by (simp add: main_defs)
  from simulate_outside_alphabet [OF h, of "[''1'', ''0'']" "[''0'']"] c h show ?thesis
    by simp
qed

text \<open>
  C5. After a matched transition, reached after any prefix of the input, \<open>simulate\<close>
  looks at the new state: in a rejecting state it returns \<open>False\<close> at once, whatever
  input remains and also when the state is final as well; otherwise in a final state it
  returns \<open>True\<close> at once; otherwise it goes on with the rest of the input.
\<close>

theorem simulate_short_circuit:
  assumes "consume a pre = Some a1"
    and "symbol \<in> set (alphabet a1)"
    and "stack a1 \<noteq> []"
    and "transitions a1 (state a1) = Some table"
    and "table (TransitionFunctionInput symbol (last (stack a1))) = Some transition_value"
  shows "simulate a (pre @ symbol # rest) =
     (let a2 = a1\<lparr>state := next_state transition_value,
                   stack := butlast (stack a1) @ symbols_to_push transition_value\<rparr>
      in if next_state transition_value \<in> set (rejecting_states a1) then (Inr False, a2)
         else if next_state transition_value \<in> set (final_states a1) then (Inr True, a2)
         else simulate a2 rest)"
proof -
  have "simulate a (pre @ symbol # rest) = simulate a1 (symbol # rest)"
    using assms(1) by (rule simulate_consume_append)
  also have "\<dots> =
     (let a2 = a1\<lparr>state := next_state transition_value,
                   stack := butlast (stack a1) @ symbols_to_push transition_value\<rparr>
      in if next_state transition_value \<in> set (rejecting_states a1) then (Inr False, a2)
         else if next_state transition_value \<in> set (final_states a1) then (Inr True, a2)
         else simulate a2 rest)"
    using assms(2-5) by (simp add: step_def Let_def)
  finally show ?thesis .
qed

theorem simulate_short_circuit_witness:
  "consume overlap_automata [] = Some overlap_automata \<and>
   ''p1'' \<in> set (rejecting_states overlap_automata) \<and>
   ''p1'' \<in> set (final_states overlap_automata) \<and>
   fst (simulate overlap_automata ([] @ ''a'' # [''a'', ''a''])) = Inr False"
proof -
  have c: "consume overlap_automata [] = Some overlap_automata" by simp
  have 1: "''a'' \<in> set (alphabet overlap_automata)" by (simp add: overlap_automata_def)
  have 2: "stack overlap_automata \<noteq> []" by (simp add: overlap_automata_def)
  have 3: "transitions overlap_automata (state overlap_automata) =
     Some (map_of [(TransitionFunctionInput ''a'' STACK_END, TransitionFunctionValue ''p1'' [''>''])])"
    by (simp add: overlap_automata_def)
  have 4: "map_of [(TransitionFunctionInput ''a'' STACK_END, TransitionFunctionValue ''p1'' [''>''])]
     (TransitionFunctionInput ''a'' (last (stack overlap_automata)))
     = Some (TransitionFunctionValue ''p1'' [''>''])"
    by (simp add: overlap_automata_def)
  from simulate_short_circuit [OF c 1 2 3 4, of "[''a'', ''a'']"] show ?thesis
    by (simp add: overlap_automata_def)
qed

text \<open>
  Within one call the stack can run empty only through a transition that pushes
  nothing: when every transition of the table pushes a symbol, a stack that is not
  empty stays so for as long as the loop runs.
\<close>

lemma step_stack_nonempty:
  assumes "\<And>q table key v. transitions a q = Some table \<Longrightarrow> table key = Some v \<Longrightarrow>
             symbols_to_push v \<noteq> []"
    and "step a symbol = (None, a')"
  shows "stack a' \<noteq> []"
  using assms
  by (auto simp: step_def Let_def split: if_splits option.splits)

lemma consume_stack_nonempty:
  assumes "\<And>q table key v. transitions a q = Some table \<Longrightarrow> table key = Some v \<Longrightarrow>
             symbols_to_push v \<noteq> []"
    and "stack a \<noteq> []" and "consume a input = Some a'"
  shows "stack a' \<noteq> []"
  using assms
proof (induction input arbitrary: a)
  case Nil
  then show ?case by simp
next
  case (Cons symbol rest)
  from Cons.prems(3) obtain a1 where s: "step a symbol = (None, a1)"
    and c: "consume a1 rest = Some a'"
    by (auto split: prod.splits option.splits)
  have t: "transitions a1 = transitions a" using step_static [OF s] by simp
  show ?case
  proof (rule Cons.IH [OF _ _ c])
    show "stack a1 \<noteq> []" using Cons.prems(1) s by (rule step_stack_nonempty)
    fix q table key v
    assume "transitions a1 q = Some table" and "table key = Some v"
    then show "symbols_to_push v \<noteq> []" using Cons.prems(1) [of q table key v] t by simp
  qed
qed

text \<open>
  C8. When the loop reaches a symbol of the alphabet with the stack empty, the \<open>pop\<close>
  raises \<open>IndexError\<close>: \<open>simulate\<close> ends with that exception, which is not the result
  \<open>False\<close> of a rejected input.
\<close>

theorem simulate_pop_empty_stack:
  "consume a pre = Some a' \<Longrightarrow> stack a' = [] \<Longrightarrow> symbol \<in> set (alphabet a') \<Longrightarrow>
     simulate a (pre @ symbol # rest) = (Inl IndexError, a') \<and>
     fst (simulate a (pre @ symbol # rest)) \<noteq> Inr False"
  by (simp add: simulate_consume_append step_def)

theorem simulate_pop_empty_stack_witness:
  "consume pure_pop_automata [''a''] = Some (pure_pop_automata\<lparr>stack := []\<rparr>) \<and>
   simulate pure_pop_automata ([''a''] @ ''a'' # [])
     = (Inl IndexError, pure_pop_automata\<lparr>stack := []\<rparr>)"
proof -
  have c: "consume pure_pop_automata [''a''] = Some (pure_pop_automata\<lparr>stack := []\<rparr>)"
    by (simp add: pure_pop_automata_def engine_defs)
  have s: "stack (pure_pop_automata\<lparr>stack := []\<rparr>) = []" by simp
  have m: "''a'' \<in> set (alphabet (pure_pop_automata\<lparr>stack := []\<rparr>))"
    by (simp add: pure_pop_automata_def)
  from simulate_pop_empty_stack [OF c s m, of "[]"] c show ?thesis by simp
qed

text \<open>
  C10, as the claim states it, fails: after the transition of \<open>dangling_automata []\<close>,
  which pushes nothing, the state \<open>p1\<close> has no entry in the transitions and is neither
  final nor rejecting, and the next symbol of the alphabet raises \<open>IndexError\<close> at the
  \<open>pop\<close> of line 93, before the lookup of line 96.
\<close>

theorem simulate_unknown_state_counterexample:
  "consume (dangling_automata []) [''a'']
     = Some (dangling_automata []\<lparr>state := ''p1'', stack := []\<rparr>) \<and>
   transitions (dangling_automata []) ''p1'' = None \<and>
   ''p1'' \<notin> set (final_states (dangling_automata [])) \<and>
   ''p1'' \<notin> set (rejecting_states (dangling_automata [])) \<and>
   ''a'' \<in> set (alphabet (dangling_automata [])) \<and>
   fst (simulate (dangling_automata []) [''a'', ''a'']) = Inl IndexError"
  by (simp add: dangling_automata_def engine_defs)

text \<open>
  C10, amended. When the current state has no entry in the transitions and the stack
  is not empty, the next symbol of the alphabet raises \<open>KeyError\<close> at the lookup, after
  the \<open>pop\<close> has removed the top of the stack; with an empty stack the \<open>pop\<close> raises
  \<open>IndexError\<close> first. In neither case does \<open>simulate\<close> return \<open>False\<close>.
\<close>

theorem simulate_unknown_state:
  "consume a pre = Some a' \<Longrightarrow> transitions a' (state a') = None \<Longrightarrow>
   symbol \<in> set (alphabet a') \<Longrightarrow>
     simulate a (pre @ symbol # rest) =
       (if stack a' = [] then (Inl IndexError, a')
        else (Inl KeyError, a'\<lparr>stack := butlast (stack a')\<rparr>))"
  by (simp add: simulate_consume_append step_def Let_def)

theorem simulate_unknown_state_witness:
  "consume (dangling_automata [''>'']) [''a'']
     = Some (dangling_automata [''>'']\<lparr>state := ''p1''\<rparr>) \<and>
   simulate (dangling_automata [''>'']) ([''a''] @ ''a'' # [''a'']) =
     (Inl KeyError, dangling_automata [''>'']\<lparr>state := ''p1'', stack := []\<rparr>)"
proof -
  have c: "consume (dangling_automata [''>'']) [''a'']
             = Some (dangling_automata [''>'']\<lparr>state := ''p1''\<rparr>)"
    by (simp add: dangling_automata_def engine_defs)
  have t: "transitions (dangling_automata [''>'']\<lparr>state := ''p1''\<rparr>)
             (state (dangling_automata [''>'']\<lparr>state := ''p1''\<rparr>)) = None"
    by (simp add: dangling_automata_def)
  have m: "''a'' \<in> set (alphabet (dangling_automata [''>'']\<lparr>state := ''p1''\<rparr>))"
    by (simp add: dangling_automata_def)
  from simulate_unknown_state [OF c t m, of "[''a'']"] c show ?thesis
    by (simp add: dangling_automata_def STACK_END_def)
qed

text \<open>
  C1. \<open>simulate\<close> starts from the state and the stack that the object holds and never
  assigns the initial values again. On the automaton of \<open>__main__\<close> the input \<open>10\<close> is
  accepted by the first call, which leaves the object in state \<open>q1\<close>, and rejected by a
  second call on the same object.
\<close>

theorem simulate_twice_differs:
  "fst (simulate main_automata [''1'', ''0'']) = Inr True \<and>
   snd (simulate main_automata [''1'', ''0'']) = main_automata\<lparr>state := ''q1''\<rparr> \<and>
   fst (simulate (snd (simulate main_automata [''1'', ''0''])) [''1'', ''0'']) = Inr False"
  by (simp add: main_defs)

subsection \<open>The automaton of \<open>__main__\<close> on binary inputs\<close>

lemma last_bottom_replicate: "last (b # replicate (Suc n) c) = c"
  by (induction n) auto

lemma butlast_bottom_replicate: "butlast (b # replicate (Suc n) c) = b # replicate n c"
  by (induction n) auto

lemma butlast_replicate_Suc: "butlast (replicate (Suc n) c) = replicate n c"
  by (induction n) auto

lemma replicate_snoc2: "replicate n c @ [c, c] = replicate (Suc (Suc n)) c"
  by (induction n) auto

lemma replicate_snoc1: "replicate n c @ [c] = replicate (Suc n) c"
  by (induction n) auto

lemmas config_simps = main_config_def main_automata_def transition_function_def step_def Let_def
  STACK_END_def INPUT_END_def last_bottom_replicate butlast_bottom_replicate butlast_replicate_Suc replicate_snoc1
  replicate_snoc2

lemma step_bottom:
  "step (main_config ''q0'' 0 c) ''0'' = (None, main_config ''q1'' 1 ''0'')"
  "step (main_config ''q0'' 0 c) ''1'' = (None, main_config ''q0'' 1 ''1'')"
  "step (main_config ''q1'' 0 c) ''0'' = (None, main_config ''q0'' 0 c)"
  "step (main_config ''q1'' 0 c) ''1'' = (None, main_config ''q1'' 1 ''1'')"
  by (simp_all add: config_simps)

lemma step_top:
  "step (main_config ''q0'' (Suc n) ''0'') ''0'' = (None, main_config ''q1'' (Suc (Suc n)) ''0'')"
  "step (main_config ''q0'' (Suc n) ''1'') ''0'' = (None, main_config ''q1'' n ''1'')"
  "step (main_config ''q0'' (Suc n) ''0'') ''1'' = (None, main_config ''q0'' n ''0'')"
  "step (main_config ''q0'' (Suc n) ''1'') ''1'' = (None, main_config ''q0'' (Suc (Suc n)) ''1'')"
  "step (main_config ''q1'' (Suc n) ''0'') ''0'' = (None, main_config ''q0'' (Suc n) ''0'')"
  "step (main_config ''q1'' (Suc n) ''1'') ''0'' = (None, main_config ''q0'' (Suc n) ''1'')"
  "step (main_config ''q1'' (Suc n) ''0'') ''1'' = (None, main_config ''q1'' n ''0'')"
  "step (main_config ''q1'' (Suc n) ''1'') ''1'' = (None, main_config ''q1'' (Suc (Suc n)) ''1'')"
  by (simp_all add: config_simps del: replicate.simps)

lemma config_exI:
  "step a x = (None, main_config q' k' c') \<Longrightarrow> q' \<in> {''q0'', ''q1''} \<Longrightarrow> c' \<in> {''0'', ''1''} \<Longrightarrow>
   surplus q' k' c' = v \<Longrightarrow>
   \<exists>q' k' c'. step a x = (None, main_config q' k' c') \<and>
           q' \<in> {''q0'', ''q1''} \<and> c' \<in> {''0'', ''1''} \<and> surplus q' k' c' = v"
  by blast

lemma step_main_config_bottom:
  assumes "q \<in> {''q0'', ''q1''}" and "c \<in> {''0'', ''1''}" and "x \<in> {''0'', ''1''}"
  shows "\<exists>q' k' c'. step (main_config q 0 c) x = (None, main_config q' k' c') \<and>
           q' \<in> {''q0'', ''q1''} \<and> c' \<in> {''0'', ''1''} \<and>
           surplus q' k' c' = surplus q 0 c + (if x = ''0'' then 1 else - 2)"
proof -
  from assms(1,3) consider "q = ''q0''" "x = ''0''" | "q = ''q0''" "x = ''1''"
    | "q = ''q1''" "x = ''0''" | "q = ''q1''" "x = ''1''" by auto
  then show ?thesis
  proof cases
    case 1
    show ?thesis unfolding 1
      by (rule config_exI [OF step_bottom(1)]) (simp_all add: surplus_def)
  next
    case 2
    show ?thesis unfolding 2
      by (rule config_exI [OF step_bottom(2)]) (simp_all add: surplus_def)
  next
    case 3
    show ?thesis unfolding 3
      by (rule config_exI [OF step_bottom(3)]) (use assms(2) in \<open>simp_all add: surplus_def\<close>)
  next
    case 4
    show ?thesis unfolding 4
      by (rule config_exI [OF step_bottom(4)]) (simp_all add: surplus_def)
  qed
qed

lemma step_main_config_top:
  assumes "q \<in> {''q0'', ''q1''}" and "c \<in> {''0'', ''1''}" and "x \<in> {''0'', ''1''}"
  shows "\<exists>q' k' c'. step (main_config q (Suc n) c) x = (None, main_config q' k' c') \<and>
           q' \<in> {''q0'', ''q1''} \<and> c' \<in> {''0'', ''1''} \<and>
           surplus q' k' c' = surplus q (Suc n) c + (if x = ''0'' then 1 else - 2)"
proof -
  from assms consider
      "q = ''q0''" "c = ''0''" "x = ''0''" | "q = ''q0''" "c = ''1''" "x = ''0''"
    | "q = ''q0''" "c = ''0''" "x = ''1''" | "q = ''q0''" "c = ''1''" "x = ''1''"
    | "q = ''q1''" "c = ''0''" "x = ''0''" | "q = ''q1''" "c = ''1''" "x = ''0''"
    | "q = ''q1''" "c = ''0''" "x = ''1''" | "q = ''q1''" "c = ''1''" "x = ''1''"
    by auto
  then show ?thesis
  proof cases
    case 1
    show ?thesis unfolding 1
      by (rule config_exI [OF step_top(1)]) (simp_all add: surplus_def)
  next
    case 2
    show ?thesis unfolding 2
      by (rule config_exI [OF step_top(2)]) (simp_all add: surplus_def)
  next
    case 3
    show ?thesis unfolding 3
      by (rule config_exI [OF step_top(3)]) (simp_all add: surplus_def)
  next
    case 4
    show ?thesis unfolding 4
      by (rule config_exI [OF step_top(4)]) (simp_all add: surplus_def)
  next
    case 5
    show ?thesis unfolding 5
      by (rule config_exI [OF step_top(5)]) (simp_all add: surplus_def)
  next
    case 6
    show ?thesis unfolding 6
      by (rule config_exI [OF step_top(6)]) (simp_all add: surplus_def)
  next
    case 7
    show ?thesis unfolding 7
      by (rule config_exI [OF step_top(7)]) (simp_all add: surplus_def)
  next
    case 8
    show ?thesis unfolding 8
      by (rule config_exI [OF step_top(8)]) (simp_all add: surplus_def)
  qed
qed

lemma step_main_config:
  assumes "q \<in> {''q0'', ''q1''}" and "c \<in> {''0'', ''1''}" and "x \<in> {''0'', ''1''}"
  shows "\<exists>q' k' c'. step (main_config q k c) x = (None, main_config q' k' c') \<and>
           q' \<in> {''q0'', ''q1''} \<and> c' \<in> {''0'', ''1''} \<and>
           surplus q' k' c' = surplus q k c + (if x = ''0'' then 1 else - 2)"
proof (cases k)
  case 0
  show ?thesis unfolding 0 using assms by (rule step_main_config_bottom)
next
  case (Suc n)
  show ?thesis unfolding Suc using assms by (rule step_main_config_top)
qed

lemma after_loop_main_config:
  assumes "q \<in> {''q0'', ''q1''}" and "c \<in> {''0'', ''1''}"
  shows "fst (after_loop (main_config q k c)) = Inr (surplus q k c \<in> {0, - 1})"
proof (cases k)
  case 0
  with assms show ?thesis
    by (auto simp: after_loop_def py_last_def main_config_def main_automata_def surplus_def STACK_END_def)
next
  case (Suc n)
  with assms show ?thesis
    by (auto simp: after_loop_def py_last_def main_config_def main_automata_def surplus_def
        STACK_END_def last_bottom_replicate simp del: replicate.simps)
qed

lemma simulate_main_config:
  assumes "set w \<subseteq> {''0'', ''1''}" and "q \<in> {''q0'', ''q1''}" and "c \<in> {''0'', ''1''}"
  shows "fst (simulate (main_config q k c) w) =
           Inr (surplus q k c + int (count_list w ''0'') - 2 * int (count_list w ''1'') \<in> {0, - 1})"
  using assms
proof (induction w arbitrary: q k c)
  case Nil
  then show ?case by (simp add: after_loop_main_config)
next
  case (Cons x w)
  from Cons.prems have x: "x \<in> {''0'', ''1''}" and w: "set w \<subseteq> {''0'', ''1''}" by auto
  from step_main_config [OF Cons.prems(2) Cons.prems(3) x, of k]
  obtain q' k' c' where s: "step (main_config q k c) x = (None, main_config q' k' c')"
    and q': "q' \<in> {''q0'', ''q1''}" and c': "c' \<in> {''0'', ''1''}"
    and v: "surplus q' k' c' = surplus q k c + (if x = ''0'' then 1 else - 2)"
    by blast
  have "fst (simulate (main_config q k c) (x # w)) = fst (simulate (main_config q' k' c') w)"
    using s by simp
  also have "\<dots> = Inr (surplus q' k' c' + int (count_list w ''0'') - 2 * int (count_list w ''1'') \<in> {0, - 1})"
    by (rule Cons.IH [OF w q' c'])
  finally show ?case using v x by auto
qed

lemma main_automata_config: "main_automata = main_config ''q0'' 0 ''0''"
  by (simp add: main_config_def main_automata_def)

text \<open>
  On every input over \<open>0\<close> and \<open>1\<close> a fresh automaton of \<open>__main__\<close> ends with the
  sentinel on top of the stack, and so accepts, exactly when the number of \<open>0\<close>s minus
  twice the number of \<open>1\<close>s is \<open>0\<close> or \<open>-1\<close>.
\<close>

lemma simulate_main_binary:
  "set w \<subseteq> {''0'', ''1''} \<Longrightarrow>
   fst (simulate main_automata w) =
     Inr (int (count_list w ''0'') - 2 * int (count_list w ''1'') \<in> {0, - 1})"
  using simulate_main_config [of w "''q0''" "''0''" 0]
  by (simp add: main_automata_config surplus_def)

text \<open>
  C2. For every arrangement \<open>p\<close> of the multiset \<open>{1,1,0,0,0,0,1,0,0}\<close>, \<open>simulate\<close> on a
  fresh automaton of \<open>__main__\<close> returns the truth value of
  \<open>count('0') == 2 * count('1')\<close>.
\<close>

theorem simulate_permutations:
  assumes "mset p = mset [''1'', ''1'', ''0'', ''0'', ''0'', ''0'', ''1'', ''0'', ''0'']"
  shows "fst (simulate main_automata p) = Inr (count_list p ''0'' = 2 * count_list p ''1'')"
proof -
  have "set_mset (mset p) = set_mset (mset [''1'', ''1'', ''0'', ''0'', ''0'', ''0'', ''1'', ''0'', ''0''])"
    using assms by simp
  then have s: "set p \<subseteq> {''0'', ''1''}" by auto
  have "count (mset p) ''0'' = count (mset [''1'', ''1'', ''0'', ''0'', ''0'', ''0'', ''1'', ''0'', ''0'']) ''0''"
    using assms by simp
  then have c0: "count_list p ''0'' = 6" by (simp add: count_mset)
  have "count (mset p) ''1'' = count (mset [''1'', ''1'', ''0'', ''0'', ''0'', ''0'', ''1'', ''0'', ''0'']) ''1''"
    using assms by simp
  then have c1: "count_list p ''1'' = 3" by (simp add: count_mset)
  from simulate_main_binary [OF s] c0 c1 show ?thesis by simp
qed





theorem simulate_permutations_witness:
  "mset [''0'', ''0'', ''1'', ''0'', ''0'', ''1'', ''1'', ''0'', ''0'']
     = mset [''1'', ''1'', ''0'', ''0'', ''0'', ''0'', ''1'', ''0'', ''0''] \<and>
   fst (simulate main_automata [''0'', ''0'', ''1'', ''0'', ''0'', ''1'', ''1'', ''0'', ''0'']) = Inr True"
proof -
  have "mset ([''0'', ''0'', ''1'', ''0'', ''0''] @ [''1'', ''1'', ''0'', ''0''])
      = mset ([''1'', ''1'', ''0'', ''0''] @ [''0'', ''0'', ''1'', ''0'', ''0''])"
    unfolding mset_append by (rule add.commute)
  then have m: "mset [''0'', ''0'', ''1'', ''0'', ''0'', ''1'', ''1'', ''0'', ''0'']
     = mset [''1'', ''1'', ''0'', ''0'', ''0'', ''0'', ''1'', ''0'', ''0'']"
    by (simp only: append.simps)
  have c: "count_list [''0'', ''0'', ''1'', ''0'', ''0'', ''1'', ''1'', ''0'', ''0''] ''0''
         = 2 * count_list [''0'', ''0'', ''1'', ''0'', ''0'', ''1'', ''1'', ''0'', ''0''] ''1''"
    by simp
  from simulate_permutations [OF m] m c show ?thesis by (simp only: simp_thms)
qed

section \<open>Properties of the parser\<close>

subsection \<open>The encoding of the strings that the engine holds\<close>

lemma char_of_inj: "a < 256 \<Longrightarrow> b < 256 \<Longrightarrow> char_of (a::nat) = char_of b \<Longrightarrow> a = b"
  by (simp add: char_of_eq_iff take_bit_eq_mod)

lemma join2: "c div 64 = d div 64 \<Longrightarrow> c mod 64 = d mod 64 \<Longrightarrow> (c::nat) = d"
  by (metis div_mult_mod_eq)

lemma join3:
  "c div 4096 = d div 4096 \<Longrightarrow> c div 64 mod 64 = d div 64 mod 64 \<Longrightarrow> c mod 64 = d mod 64 \<Longrightarrow>
   (c::nat) = d"
proof -
  assume a: "c div 4096 = d div 4096" and b: "c div 64 mod 64 = d div 64 mod 64"
    and m: "c mod 64 = d mod 64"
  have "c div 64 div 64 = c div 4096" "d div 64 div 64 = d div 4096"
    by (simp_all add: div_mult2_eq [symmetric])
  with a have "c div 64 div 64 = d div 64 div 64" by simp
  from join2 [OF this b] have "c div 64 = d div 64" .
  from join2 [OF this m] show ?thesis .
qed

lemma join4:
  "c div 262144 = d div 262144 \<Longrightarrow> c div 4096 mod 64 = d div 4096 mod 64 \<Longrightarrow>
   c div 64 mod 64 = d div 64 mod 64 \<Longrightarrow> c mod 64 = d mod 64 \<Longrightarrow> (c::nat) = d"
proof -
  assume a: "c div 262144 = d div 262144" and b: "c div 4096 mod 64 = d div 4096 mod 64"
    and b2: "c div 64 mod 64 = d div 64 mod 64" and m: "c mod 64 = d mod 64"
  have "c div 4096 div 64 = c div 262144" "d div 4096 div 64 = d div 262144"
    by (simp_all add: div_mult2_eq [symmetric])
  with a have "c div 4096 div 64 = d div 4096 div 64" by simp
  from join2 [OF this b] have "c div 4096 = d div 4096" .
  from join3 [OF this b2 m] show ?thesis .
qed

text \<open>The first byte of the encoding of a code point, and the class it falls in.\<close>

lemma utf8_char_first:
  assumes "c < 0x110000"
  shows "\<exists>(f::nat) r. utf8_char c = char_of f # r \<and> f < 256 \<and>
           (if c < 0x80 then f < 0x80
            else if c < 0x800 then 0xC0 \<le> f \<and> f < 0xE0
            else if c < 0x10000 then 0xE0 \<le> f \<and> f < 0xF0
            else 0xF0 \<le> f)"
proof -
  consider (1) "c < 0x80" | (2) "0x80 \<le> c" "c < 0x800" | (3) "0x800 \<le> c" "c < 0x10000"
    | (4) "0x10000 \<le> c" by linarith
  then show ?thesis
  proof cases
    case 1
    then have u: "utf8_char c = char_of c # []" by (simp add: utf8_char_def)
    from 1 have "c < 256" by simp
    with 1 u show ?thesis by (intro exI [of _ c] exI) auto
  next
    case 2
    then have u: "utf8_char c = char_of (0xC0 + c div 0x40) # [char_of (0x80 + c mod 0x40)]"
      by (simp add: utf8_char_def)
    from 2 have "0xC0 + c div 0x40 < 0xE0" by arith
    with 2 u show ?thesis by (intro exI [of _ "0xC0 + c div 0x40"] exI) auto
  next
    case 3
    then have u: "utf8_char c = char_of (0xE0 + c div 0x1000)
        # [char_of (0x80 + c div 0x40 mod 0x40), char_of (0x80 + c mod 0x40)]"
      by (simp add: utf8_char_def)
    from 3 have "0xE0 + c div 0x1000 < 0xF0" by arith
    with 3 u show ?thesis by (intro exI [of _ "0xE0 + c div 0x1000"] exI) auto
  next
    case 4
    then have u: "utf8_char c = char_of (0xF0 + c div 0x40000)
        # [char_of (0x80 + c div 0x1000 mod 0x40), char_of (0x80 + c div 0x40 mod 0x40),
           char_of (0x80 + c mod 0x40)]"
      by (simp add: utf8_char_def)
    from assms have "0xF0 + c div 0x40000 < 256" by arith
    with 4 u show ?thesis by (intro exI [of _ "0xF0 + c div 0x40000"] exI) auto
  qed
qed

lemma utf8_char_same_class:
  assumes "c < 0x110000" and "d < 0x110000" and "utf8_char c @ x = utf8_char d @ y"
  shows "(c < 0x80 \<longleftrightarrow> d < 0x80) \<and> (c < 0x800 \<longleftrightarrow> d < 0x800) \<and> (c < 0x10000 \<longleftrightarrow> d < 0x10000)"
proof -
  from utf8_char_first [OF assms(1)] obtain f :: nat and r where c: "utf8_char c = char_of f # r" "f < 256"
    and cf: "if c < 0x80 then f < 0x80
            else if c < 0x800 then 0xC0 \<le> f \<and> f < 0xE0
            else if c < 0x10000 then 0xE0 \<le> f \<and> f < 0xF0
            else 0xF0 \<le> f" by blast
  from utf8_char_first [OF assms(2)] obtain g :: nat and s where d: "utf8_char d = char_of g # s" "g < 256"
    and dg: "if d < 0x80 then g < 0x80
            else if d < 0x800 then 0xC0 \<le> g \<and> g < 0xE0
            else if d < 0x10000 then 0xE0 \<le> g \<and> g < 0xF0
            else 0xF0 \<le> g" by blast
  from assms(3) c d have "char_of f = char_of g" by simp
  from char_of_inj [OF c(2) d(2) this] have "f = g" .
  with cf dg show ?thesis by (auto split: if_splits)
qed

lemma utf8_char_prefix:
  assumes "c < 0x110000" and "d < 0x110000" and "utf8_char c @ x = utf8_char d @ y"
  shows "c = d \<and> x = y"
proof -
  note cls = utf8_char_same_class [OF assms]
  consider (1) "c < 0x80" | (2) "0x80 \<le> c" "c < 0x800" | (3) "0x800 \<le> c" "c < 0x10000"
    | (4) "0x10000 \<le> c" by linarith
  then show ?thesis
  proof cases
    case 1
    with cls have "d < 0x80" by simp
    with 1 assms(3) have "char_of c = char_of d" "x = y" by (simp_all add: utf8_char_def)
    moreover from 1 \<open>d < 0x80\<close> have "c < 256" "d < 256" by simp_all
    ultimately show ?thesis by (auto dest: char_of_inj)
  next
    case 2
    with cls have d: "0x80 \<le> d" "d < 0x800" by auto
    with 2 assms(3) have e: "char_of (0xC0 + c div 0x40) = char_of (0xC0 + d div 0x40)"
      "char_of (0x80 + c mod 0x40) = char_of (0x80 + d mod 0x40)" and xy: "x = y"
      by (simp_all add: utf8_char_def)
    have "0xC0 + c div 0x40 < 256" "0xC0 + d div 0x40 < 256" using 2 d by arith+
    from char_of_inj [OF this e(1)] have a: "c div 64 = d div 64" by simp
    have "0x80 + c mod 0x40 < 256" "0x80 + d mod 0x40 < 256" by arith+
    from char_of_inj [OF this e(2)] have b: "c mod 64 = d mod 64" by simp
    from join2 [OF a b] xy show ?thesis by simp
  next
    case 3
    with cls have d: "0x800 \<le> d" "d < 0x10000" by auto
    with 3 assms(3) have e: "char_of (0xE0 + c div 0x1000) = char_of (0xE0 + d div 0x1000)"
      "char_of (0x80 + c div 0x40 mod 0x40) = char_of (0x80 + d div 0x40 mod 0x40)"
      "char_of (0x80 + c mod 0x40) = char_of (0x80 + d mod 0x40)" and xy: "x = y"
      by (simp_all add: utf8_char_def)
    have "0xE0 + c div 0x1000 < 256" "0xE0 + d div 0x1000 < 256" using 3 d by arith+
    from char_of_inj [OF this e(1)] have a: "c div 4096 = d div 4096" by simp
    have "0x80 + c div 0x40 mod 0x40 < 256" "0x80 + d div 0x40 mod 0x40 < 256" by arith+
    from char_of_inj [OF this e(2)] have b: "c div 64 mod 64 = d div 64 mod 64" by simp
    have "0x80 + c mod 0x40 < 256" "0x80 + d mod 0x40 < 256" by arith+
    from char_of_inj [OF this e(3)] have m: "c mod 64 = d mod 64" by simp
    from join3 [OF a b m] xy show ?thesis by simp
  next
    case 4
    with cls have d: "0x10000 \<le> d" by auto
    with 4 assms(3) have e: "char_of (0xF0 + c div 0x40000) = char_of (0xF0 + d div 0x40000)"
      "char_of (0x80 + c div 0x1000 mod 0x40) = char_of (0x80 + d div 0x1000 mod 0x40)"
      "char_of (0x80 + c div 0x40 mod 0x40) = char_of (0x80 + d div 0x40 mod 0x40)"
      "char_of (0x80 + c mod 0x40) = char_of (0x80 + d mod 0x40)" and xy: "x = y"
      by (simp_all add: utf8_char_def)
    have "0xF0 + c div 0x40000 < 256" "0xF0 + d div 0x40000 < 256" using assms(1,2) by arith+
    from char_of_inj [OF this e(1)] have a: "c div 262144 = d div 262144" by simp
    have "0x80 + c div 0x1000 mod 0x40 < 256" "0x80 + d div 0x1000 mod 0x40 < 256" by arith+
    from char_of_inj [OF this e(2)] have b: "c div 4096 mod 64 = d div 4096 mod 64" by simp
    have "0x80 + c div 0x40 mod 0x40 < 256" "0x80 + d div 0x40 mod 0x40 < 256" by arith+
    from char_of_inj [OF this e(3)] have b2: "c div 64 mod 64 = d div 64 mod 64" by simp
    have "0x80 + c mod 0x40 < 256" "0x80 + d mod 0x40 < 256" by arith+
    from char_of_inj [OF this e(4)] have m: "c mod 64 = d mod 64" by simp
    from join4 [OF a b b2 m] xy show ?thesis by simp
  qed
qed

text \<open>Two Python strings with the same encoding are the same string.\<close>

lemma utf8_inj:
  "list_all (\<lambda>c. c < 0x110000) s \<Longrightarrow> list_all (\<lambda>c. c < 0x110000) t \<Longrightarrow>
   utf8 s = utf8 t \<Longrightarrow> s = t"
proof (induction s arbitrary: t)
  case Nil
  show ?case
  proof (cases t)
    case Nil
    then show ?thesis by simp
  next
    case (Cons d t')
    with Nil.prems have "d < 0x110000" "utf8_char d @ utf8 t' = []" by (simp_all add: utf8_def)
    with utf8_char_first [of d] show ?thesis by auto
  qed
next
  case (Cons c s)
  show ?case
  proof (cases t)
    case Nil
    with Cons.prems have "c < 0x110000" "utf8_char c @ utf8 s = []" by (simp_all add: utf8_def)
    with utf8_char_first [of c] show ?thesis by auto
  next
    case (Cons d t')
    with Cons.prems have c: "c < 0x110000" and d: "d < 0x110000"
      and e: "utf8_char c @ utf8 s = utf8_char d @ utf8 t'"
      and s: "list_all (\<lambda>c. c < 0x110000) s" and t: "list_all (\<lambda>c. c < 0x110000) t'"
      by (simp_all add: utf8_def)
    from utf8_char_prefix [OF c d e] have "c = d" "utf8 s = utf8 t'" by simp_all
    with Cons.IH [OF s t] Cons show ?thesis by simp
  qed
qed

subsection \<open>Facts about the string methods\<close>

lemma ascii_simps:
  "ascii [] = []" "ascii (c # s) = of_char c # ascii s" "ascii (a @ b) = ascii a @ ascii b"
  by (simp_all add: ascii_def)

text \<open>ASCII text is its own UTF-8 encoding.\<close>

lemma utf8_ascii: "list_all (\<lambda>c. of_char c < (0x80 :: nat)) s \<Longrightarrow> utf8 (ascii s) = s"
  by (induction s) (simp_all add: utf8_def ascii_def utf8_char_def)

lemma utf8_simps:
  "utf8 [] = []" "utf8 (c # s) = utf8_char c @ utf8 s"
  by (simp_all add: utf8_def)

lemmas char_of_eval = char_of_def bit_iff_odd drop_bit_eq_div

lemma dropWhile_all_then:
  "list_all P xs \<Longrightarrow> \<not> P y \<Longrightarrow> dropWhile P (xs @ y # ys) = y # ys"
  by (induction xs) auto

lemma py_strip_core:
  assumes "list_all is_space ws1" and "list_all is_space ws2"
    and "core \<noteq> []" and "\<not> is_space (hd core)" and "\<not> is_space (last core)"
  shows "py_strip (ws1 @ core @ ws2) = core"
proof -
  from assms(3) obtain y ys where c: "core = y # ys" by (cases core) auto
  from assms(3) obtain z zs where r: "rev core = z # zs" by (cases "rev core") auto
  have z: "z = last core" using r assms(3) by (metis hd_rev list.sel(1))
  have 1: "dropWhile is_space (ws1 @ core @ ws2) = core @ ws2"
    using dropWhile_all_then [OF assms(1), of y "ys @ ws2"] assms(4) c by simp
  have "list_all is_space (rev ws2)" using assms(2) by (simp add: list_all_iff)
  then have "dropWhile is_space (rev ws2 @ z # zs) = z # zs"
    using assms(5) z by (intro dropWhile_all_then) simp_all
  then have 2: "dropWhile is_space (rev ws2 @ rev core) = rev core"
    unfolding r .
  have "rev (rev core) = core" by simp
  then show ?thesis unfolding py_strip_def 1 rev_append 2 .
qed

text \<open>A stripped string does not end in whitespace.\<close>

lemma py_strip_last:
  assumes "py_strip s \<noteq> []"
  shows "\<not> is_space (last (py_strip s))"
proof -
  let ?d = "dropWhile is_space (rev (dropWhile is_space s))"
  from assms have d: "?d \<noteq> []" by (simp add: py_strip_def)
  then have "\<not> is_space (hd ?d)" by (rule hd_dropWhile)
  moreover have "last (py_strip s) = hd ?d"
    using d by (simp add: py_strip_def last_rev)
  ultimately show ?thesis by simp
qed

lemma startswith_self [simp]: "startswith p p"
  by (simp add: startswith_def)

lemma startswith_append [simp]: "startswith (p @ s) p"
  by (simp add: startswith_def)

lemma startswith_Some: "startswith s p \<Longrightarrow> \<exists>s'. s = p @ s'"
  by (metis append_take_drop_id startswith_def)

lemma startswith_first: "c \<noteq> d \<Longrightarrow> \<not> startswith (c # r) (d # p)"
  by (simp add: startswith_def)

lemma startswith_keyword:
  assumes "x \<notin> set w" and "x \<notin> set k"
  shows "startswith (w @ [x]) (k @ [x]) \<longleftrightarrow> w = k"
proof
  assume "startswith (w @ [x]) (k @ [x])"
  then obtain s' where "w @ [x] = (k @ [x]) @ s'" by (auto dest: startswith_Some)
  then have "takeWhile (\<lambda>c. c \<noteq> x) (w @ [x]) = takeWhile (\<lambda>c. c \<noteq> x) (k @ x # s')" by simp
  moreover have "takeWhile (\<lambda>c. c \<noteq> x) (k @ x # s') = k"
    using assms(2) by (induction k) auto
  moreover have "takeWhile (\<lambda>c. c \<noteq> x) (w @ [x]) = w"
    using assms(1) by (induction w) auto
  ultimately show "w = k" by simp
next
  assume "w = k"
  then show "startswith (w @ [x]) (k @ [x])" by simp
qed

lemma py_contains_append: "p \<noteq> [] \<Longrightarrow> py_contains p (a @ p @ b)"
proof (induction a)
  case Nil
  then show ?case by (cases p) (simp_all add: startswith_def)
next
  case (Cons x a)
  then show ?case by simp
qed

lemma split_from_nonempty: "split_from sep cur s \<noteq> []"
  by (induction sep cur s rule: split_from.induct) auto

subsection \<open>Facts about the matcher\<close>

lemma lit_append [simp]: "lit p k (p @ s) = k s"
  by (simp add: lit_def)

lemma lit_Some: "lit p k s = Some r \<Longrightarrow> \<exists>s'. s = p @ s' \<and> k s' = Some r"
  by (cases "startswith s p") (auto simp: lit_def dest: startswith_Some)

lemma lit_first_None: "c \<notin> set s \<Longrightarrow> lit (c # p) k s = None"
  by (cases s) (auto simp: lit_def startswith_def)

text \<open>
  A greedy group fails when the rest of the pattern fails after every prefix that the
  group can take.
\<close>

lemma greedy_star_None:
  "(\<And>w v'. s = w @ v' \<Longrightarrow> list_all p w \<Longrightarrow> k (g @ w) v' = None) \<Longrightarrow> greedy_star p k g s = None"
proof (induction s arbitrary: g)
  case Nil
  from Nil [of "[]" "[]"] show ?case by simp
next
  case (Cons c cs)
  have here: "k g (c # cs) = None"
    using Cons.prems [of "[]" "c # cs"] by simp
  show ?case
  proof (cases "p c")
    case True
    have "greedy_star p k (g @ [c]) cs = None"
    proof (rule Cons.IH)
      fix w v'
      assume "cs = w @ v'" and "list_all p w"
      with True Cons.prems [of "c # w" v'] show "k ((g @ [c]) @ w) v' = None" by simp
    qed
    with True here show ?thesis by simp
  next
    case False
    with here show ?thesis by simp
  qed
qed

text \<open>
  A greedy group takes \<open>u\<close> when the rest of the pattern matches after \<open>u\<close> and fails
  after every longer prefix that the group can take.
\<close>

lemma greedy_star_commit:
  assumes "list_all p u" and "k (g @ u) v = Some r"
    and "\<And>w v'. v = w @ v' \<Longrightarrow> w \<noteq> [] \<Longrightarrow> list_all p w \<Longrightarrow> k (g @ u @ w) v' = None"
  shows "greedy_star p k g (u @ v) = Some r"
  using assms
proof (induction u arbitrary: g)
  case Nil
  show ?case
  proof (cases v)
    case Nil
    with Nil.prems(2) show ?thesis by simp
  next
    case (Cons c cs)
    show ?thesis
    proof (cases "p c")
      case True
      have "greedy_star p k (g @ [c]) cs = None"
      proof (rule greedy_star_None)
        fix w v'
        assume "cs = w @ v'" and "list_all p w"
        with True Cons Nil.prems(3) [of "c # w" v'] show "k ((g @ [c]) @ w) v' = None" by simp
      qed
      with True Cons Nil.prems(2) show ?thesis by simp
    next
      case False
      with Cons Nil.prems(2) show ?thesis by simp
    qed
  qed
next
  case (Cons a u)
  have "greedy_star p k (g @ [a]) (u @ v) = Some r"
  proof (rule Cons.IH)
    show "list_all p u" using Cons.prems(1) by simp
    show "k ((g @ [a]) @ u) v = Some r" using Cons.prems(2) by simp
    fix w v'
    assume "v = w @ v'" and "w \<noteq> []" and "list_all p w"
    then show "k ((g @ [a]) @ u @ w) v' = None" using Cons.prems(3) [of w v'] by simp
  qed
  with Cons.prems(1) show ?case by simp
qed

lemma greedy_plus_commit:
  assumes "u \<noteq> []" and "list_all p u" and "k u v = Some r"
    and "\<And>w v'. v = w @ v' \<Longrightarrow> w \<noteq> [] \<Longrightarrow> list_all p w \<Longrightarrow> k (u @ w) v' = None"
  shows "greedy_plus p k (u @ v) = Some r"
proof -
  from assms(1) obtain a u' where u: "u = a # u'" by (cases u) auto
  have "greedy_star p k [a] (u' @ v) = Some r"
  proof (rule greedy_star_commit)
    show "list_all p u'" using assms(2) u by simp
    show "k ([a] @ u') v = Some r" using assms(3) u by simp
    fix w v'
    assume "v = w @ v'" and "w \<noteq> []" and "list_all p w"
    then show "k ([a] @ u' @ w) v' = None" using assms(4) [of w v'] u by simp
  qed
  with assms(2) u show ?thesis by simp
qed

lemma greedy_plus_None:
  assumes "\<And>w v'. s = w @ v' \<Longrightarrow> k w v' = None"
  shows "greedy_plus p k s = None"
proof (cases s)
  case Nil
  then show ?thesis by simp
next
  case (Cons c cs)
  have "greedy_star p k [c] cs = None"
  proof (rule greedy_star_None)
    fix w v'
    assume "cs = w @ v'"
    with Cons assms [of "c # w" v'] show "k ([c] @ w) v' = None" by simp
  qed
  with Cons show ?thesis by simp
qed

text \<open>What a successful match of a group took, and what the rest of the pattern saw.\<close>

lemma greedy_star_Some:
  "greedy_star p k g s = Some r \<Longrightarrow>
     \<exists>w v'. s = w @ v' \<and> list_all p w \<and> k (g @ w) v' = Some r"
proof (induction s arbitrary: g)
  case Nil
  then show ?case by simp
next
  case (Cons c cs)
  show ?case
  proof (cases "p c \<and> greedy_star p k (g @ [c]) cs \<noteq> None")
    case True
    with Cons.prems have "greedy_star p k (g @ [c]) cs = Some r" by auto
    from Cons.IH [OF this] obtain w v' where "cs = w @ v'" "list_all p w"
      "k ((g @ [c]) @ w) v' = Some r" by blast
    with True have "c # cs = (c # w) @ v' \<and> list_all p (c # w) \<and> k (g @ c # w) v' = Some r"
      by simp
    then show ?thesis by blast
  next
    case False
    with Cons.prems have "k g (c # cs) = Some r" by (auto split: if_splits option.splits)
    then have "c # cs = [] @ (c # cs) \<and> list_all p [] \<and> k (g @ []) (c # cs) = Some r" by simp
    then show ?thesis by blast
  qed
qed

lemma greedy_plus_Some:
  assumes "greedy_plus p k s = Some r"
  shows "\<exists>w v'. s = w @ v' \<and> w \<noteq> [] \<and> list_all p w \<and> k w v' = Some r"
proof (cases s)
  case Nil
  with assms show ?thesis by simp
next
  case (Cons c cs)
  with assms have c: "p c" and "greedy_star p k [c] cs = Some r" by (auto split: if_splits)
  from greedy_star_Some [OF this(2)] obtain w v' where "cs = w @ v'" "list_all p w"
    "k ([c] @ w) v' = Some r" by blast
  with c Cons have "s = (c # w) @ v' \<and> c # w \<noteq> [] \<and> list_all p (c # w) \<and> k (c # w) v' = Some r"
    by simp
  then show ?thesis by blast
qed

lemma proper_suffix_set:
  "c # rest = w @ v' \<Longrightarrow> w \<noteq> [] \<Longrightarrow> set v' \<subseteq> set rest"
  by (cases w) auto

text \<open>The punctuation of the grammar is made of ASCII characters that \<open>\w\<close> does not match.\<close>

lemma is_word_chars:
  "is_word alnum c \<Longrightarrow>
     c \<noteq> 0x2C \<and> c \<noteq> 0x29 \<and> c \<noteq> 0x3A \<and> c \<noteq> 0x20 \<and> c \<noteq> 0x23 \<and> c \<noteq> 0x28"
  by (auto simp: is_word_def split: if_splits)

lemma list_all_is_word_set:
  "list_all (is_word alnum) n \<Longrightarrow> 0x2C \<notin> set n \<and> 0x29 \<notin> set n \<and> 0x3A \<notin> set n"
  using is_word_chars by (auto simp: list_all_iff)

subsection \<open>The transition pattern\<close>

lemma lits:
  "ascii ''('' = [0x28]" "ascii '', '' = [0x2C, 0x20]"
  "ascii '') -> '' = [0x29, 0x20, 0x2D, 0x3E, 0x20]" "ascii '' ['' = [0x20, 0x5B]"
  "ascii '']'' = [0x5D]" "ascii '':'' = [0x3A]" "ascii ''->'' = [0x2D, 0x3E]"
  "ascii ''#'' = [0x23]"
  by (simp_all add: ascii_def)

text \<open>A line that the transition pattern matches is made of the literal text of the
  pattern around the four groups, and of whatever follows the closing bracket.\<close>

lemma match_transition_Some:
  assumes "match_transition alnum s = Some (i, t, n, body)"
  shows "\<exists>rest. s = ascii ''('' @ i @ ascii '', '' @ t @ ascii '') -> '' @ n @ ascii '' [''
                     @ body @ ascii '']'' @ rest"
proof -
  from assms obtain s1 where s: "s = ascii ''('' @ s1"
    and 1: "greedy_plus is_dot (\<lambda>g1.
          lit (ascii '', '')
            (greedy_plus is_dot (\<lambda>g2.
               lit (ascii '') -> '')
                 (greedy_plus (is_word alnum) (\<lambda>g3.
                    lit (ascii '' ['')
                      (greedy_star is_dot (\<lambda>g4.
                         lit (ascii '']'') (\<lambda>r. Some (g1, g2, g3, g4))) [])))))) s1
         = Some (i, t, n, body)"
    unfolding match_transition_def by (blast dest: lit_Some)
  from greedy_plus_Some [OF 1] obtain g1 v1 where s1: "s1 = g1 @ v1"
    and "lit (ascii '', '')
            (greedy_plus is_dot (\<lambda>g2.
               lit (ascii '') -> '')
                 (greedy_plus (is_word alnum) (\<lambda>g3.
                    lit (ascii '' ['')
                      (greedy_star is_dot (\<lambda>g4.
                         lit (ascii '']'') (\<lambda>r. Some (g1, g2, g3, g4))) []))))) v1
         = Some (i, t, n, body)"
    by blast
  from lit_Some [OF this(2)] obtain s2 where v1: "v1 = ascii '', '' @ s2"
    and 2: "greedy_plus is_dot (\<lambda>g2.
               lit (ascii '') -> '')
                 (greedy_plus (is_word alnum) (\<lambda>g3.
                    lit (ascii '' ['')
                      (greedy_star is_dot (\<lambda>g4.
                         lit (ascii '']'') (\<lambda>r. Some (g1, g2, g3, g4))) [])))) s2
         = Some (i, t, n, body)"
    by blast
  from greedy_plus_Some [OF 2] obtain g2 v2 where s2: "s2 = g2 @ v2"
    and "lit (ascii '') -> '')
                 (greedy_plus (is_word alnum) (\<lambda>g3.
                    lit (ascii '' ['')
                      (greedy_star is_dot (\<lambda>g4.
                         lit (ascii '']'') (\<lambda>r. Some (g1, g2, g3, g4))) []))) v2
         = Some (i, t, n, body)"
    by blast
  from lit_Some [OF this(2)] obtain s3 where v2: "v2 = ascii '') -> '' @ s3"
    and 3: "greedy_plus (is_word alnum) (\<lambda>g3.
                    lit (ascii '' ['')
                      (greedy_star is_dot (\<lambda>g4.
                         lit (ascii '']'') (\<lambda>r. Some (g1, g2, g3, g4))) [])) s3
         = Some (i, t, n, body)"
    by blast
  from greedy_plus_Some [OF 3] obtain g3 v3 where s3: "s3 = g3 @ v3"
    and "lit (ascii '' ['')
                      (greedy_star is_dot (\<lambda>g4.
                         lit (ascii '']'') (\<lambda>r. Some (g1, g2, g3, g4))) []) v3
         = Some (i, t, n, body)"
    by blast
  from lit_Some [OF this(2)] obtain s4 where v3: "v3 = ascii '' ['' @ s4"
    and 4: "greedy_star is_dot (\<lambda>g4.
                         lit (ascii '']'') (\<lambda>r. Some (g1, g2, g3, g4))) [] s4
         = Some (i, t, n, body)"
    by blast
  from greedy_star_Some [OF 4] obtain g4 v4 where s4: "s4 = g4 @ v4"
    and "lit (ascii '']'') (\<lambda>r. Some (g1, g2, g3, [] @ g4)) v4 = Some (i, t, n, body)"
    by blast
  from lit_Some [OF this(2)] obtain rest where v4: "v4 = ascii '']'' @ rest"
    and g: "Some (g1, g2, g3, [] @ g4) = Some (i, t, n, body)"
    by blast
  from g have "g1 = i" "g2 = t" "g3 = n" "g4 = body" by simp_all
  with s s1 v1 s2 v2 s3 v3 s4 v4 show ?thesis by simp
qed

text \<open>A word followed by a colon, and nothing else or one newline: the lines that the
  header pattern matches.\<close>

lemma match_header_Some:
  assumes "match_header alnum s"
  shows "\<exists>w. w \<noteq> [] \<and> list_all (is_word alnum) w \<and>
             (s = w @ ascii '':'' \<or> s = w @ ascii '':'' @ [0x0A])"
proof -
  from assms obtain g where
    "greedy_plus (is_word alnum)
        (\<lambda>g. lit (ascii '':'') (\<lambda>r. if r = [] \<or> r = [0x0A] then Some g else None)) s = Some g"
    unfolding match_header_def by blast
  from greedy_plus_Some [OF this] obtain w v' where s: "s = w @ v'" and w: "w \<noteq> []"
    "list_all (is_word alnum) w"
    and "lit (ascii '':'') (\<lambda>r. if r = [] \<or> r = [0x0A] then Some w else None) v' = Some g"
    by blast
  from lit_Some [OF this(4)] obtain r where "v' = ascii '':'' @ r" and "r = [] \<or> r = [0x0A]"
    by (auto split: if_splits)
  with s w show ?thesis by auto
qed

lemma match_header_word:
  assumes "w \<noteq> []" and "list_all (is_word alnum) w"
  shows "match_header alnum (w @ ascii '':'')"
proof -
  let ?k = "\<lambda>g. lit (ascii '':'') (\<lambda>r. if r = [] \<or> r = [0x0A] then Some g else None)"
  have "greedy_plus (is_word alnum) ?k (w @ ascii '':'') = Some w"
  proof (rule greedy_plus_commit [OF assms])
    have "?k w (ascii '':'' @ []) = Some w" by (simp only: lit_append) simp
    then show "?k w (ascii '':'') = Some w" by simp
    fix u v'
    assume "ascii '':'' = u @ v'" and "u \<noteq> []" and "list_all (is_word alnum) u"
    then have "is_word alnum 0x3A" by (cases u) (auto simp: lits)
    then have False by (simp add: is_word_def)
    then show "?k (w @ u) v' = None" ..
  qed
  then show ?thesis by (simp add: match_header_def)
qed

lemma match_header_first: "\<not> is_word alnum c \<Longrightarrow> \<not> match_header alnum (c # r)"
  by (simp add: match_header_def)

subsection \<open>The transition pattern on a line in the shape of the grammar\<close>

lemma match_group4:
  assumes "list_all is_dot body"
  shows "greedy_star is_dot (\<lambda>g4. lit (ascii '']'') (\<lambda>r. Some (g1, g2, g3, g4))) []
           (body @ ascii '']'') = Some (g1, g2, g3, body)"
proof (rule greedy_star_commit [OF assms])
  have "lit (ascii '']'') (\<lambda>r. Some (g1, g2, g3, [] @ body)) (ascii '']'' @ [])
          = Some (g1, g2, g3, body)"
    by (simp only: lit_append) simp
  then show "lit (ascii '']'') (\<lambda>r. Some (g1, g2, g3, [] @ body)) (ascii '']'')
          = Some (g1, g2, g3, body)" by simp
  fix w v'
  assume "ascii '']'' = w @ v'" and "w \<noteq> []"
  then have "v' = []" by (cases w) (auto simp: lits)
  then show "lit (ascii '']'') (\<lambda>r. Some (g1, g2, g3, [] @ body @ w)) v' = None"
    by (simp add: lit_def startswith_def lits)
qed

lemma match_group3:
  assumes "n \<noteq> []" and "list_all (is_word alnum) n" and "list_all is_dot body"
  shows "greedy_plus (is_word alnum) (\<lambda>g3.
           lit (ascii '' ['')
             (greedy_star is_dot (\<lambda>g4. lit (ascii '']'') (\<lambda>r. Some (g1, g2, g3, g4))) []))
           (n @ ascii '' ['' @ body @ ascii '']'')
         = Some (g1, g2, n, body)"
proof (rule greedy_plus_commit [OF assms(1,2)])
  show "lit (ascii '' ['')
          (greedy_star is_dot (\<lambda>g4. lit (ascii '']'') (\<lambda>r. Some (g1, g2, n, g4))) [])
          (ascii '' ['' @ body @ ascii '']'') = Some (g1, g2, n, body)"
    by (simp only: lit_append match_group4 [OF assms(3)])
  fix w v'
  assume "ascii '' ['' @ body @ ascii '']'' = w @ v'" and "w \<noteq> []"
    and "list_all (is_word alnum) w"
  then have "is_word alnum 0x20" by (cases w) (auto simp: lits)
  then have False by (simp add: is_word_def)
  then show "lit (ascii '' ['')
      (greedy_star is_dot (\<lambda>g4. lit (ascii '']'') (\<lambda>r. Some (g1, g2, n @ w, g4))) []) v' = None" ..
qed

lemma match_group2:
  assumes "t \<noteq> []" and "list_all is_dot t"
    and "n \<noteq> []" and "list_all (is_word alnum) n"
    and "list_all is_dot body" and "0x29 \<notin> set body"
  shows "greedy_plus is_dot (\<lambda>g2.
           lit (ascii '') -> '') (greedy_plus (is_word alnum) (\<lambda>g3.
             lit (ascii '' ['')
               (greedy_star is_dot (\<lambda>g4. lit (ascii '']'') (\<lambda>r. Some (g1, g2, g3, g4))) []))))
           (t @ ascii '') -> '' @ n @ ascii '' ['' @ body @ ascii '']'')
         = Some (g1, t, n, body)"
proof (rule greedy_plus_commit [OF assms(1,2)])
  show "lit (ascii '') -> '') (greedy_plus (is_word alnum) (\<lambda>g3.
             lit (ascii '' ['')
               (greedy_star is_dot (\<lambda>g4. lit (ascii '']'') (\<lambda>r. Some (g1, t, g3, g4))) [])))
          (ascii '') -> '' @ n @ ascii '' ['' @ body @ ascii '']'') = Some (g1, t, n, body)"
    by (simp only: lit_append match_group3 [OF assms(3,4,5)])
  fix w v'
  let ?tail = "[0x20, 0x2D, 0x3E, 0x20] @ n @ ascii '' ['' @ body @ ascii '']''"
  assume split: "ascii '') -> '' @ n @ ascii '' ['' @ body @ ascii '']'' = w @ v'" and "w \<noteq> []"
  then have "0x29 # ?tail = w @ v'" by (simp add: lits)
  from proper_suffix_set [OF this \<open>w \<noteq> []\<close>] have "set v' \<subseteq> set ?tail" .
  moreover have "0x29 \<notin> set ?tail"
    using assms(6) list_all_is_word_set [OF assms(4)] by (simp add: lits)
  ultimately have "0x29 \<notin> set v'" by blast
  then have "lit (0x29 # [0x20, 0x2D, 0x3E, 0x20]) (greedy_plus (is_word alnum) (\<lambda>g3.
             lit (ascii '' ['')
               (greedy_star is_dot (\<lambda>g4. lit (ascii '']'') (\<lambda>r. Some (g1, t @ w, g3, g4))) []))) v'
           = None"
    by (rule lit_first_None)
  then show "lit (ascii '') -> '') (greedy_plus (is_word alnum) (\<lambda>g3.
             lit (ascii '' ['')
               (greedy_star is_dot (\<lambda>g4. lit (ascii '']'') (\<lambda>r. Some (g1, t @ w, g3, g4))) []))) v'
           = None"
    by (simp only: lits)
qed

lemma match_group2_None:
  assumes "0x29 \<notin> set s"
  shows "greedy_plus is_dot (\<lambda>g2. lit (ascii '') -> '') (k g2)) s = None"
proof (rule greedy_plus_None)
  fix w v'
  assume "s = w @ v'"
  with assms have "0x29 \<notin> set v'" by simp
  then have "lit (0x29 # [0x20, 0x2D, 0x3E, 0x20]) (k w) v' = None" by (rule lit_first_None)
  then show "lit (ascii '') -> '') (k w) v' = None" by (simp only: lits)
qed

lemma lit_comma_None:
  assumes "0x29 \<notin> set s"
  shows "lit (ascii '', '') (greedy_plus is_dot (\<lambda>g2. lit (ascii '') -> '') (k g2))) s = None"
proof (cases "startswith s (ascii '', '')")
  case True
  have "0x29 \<notin> set (drop (length (ascii '', '')) s)"
    using assms in_set_dropD by fastforce
  from match_group2_None [OF this] True show ?thesis by (simp add: lit_def)
next
  case False
  then show ?thesis by (simp add: lit_def)
qed

lemma match_group1:
  assumes "i \<noteq> []" and "list_all is_dot i"
    and "t \<noteq> []" and "list_all is_dot t" and "0x2C \<notin> set t"
    and "n \<noteq> []" and "list_all (is_word alnum) n"
    and "list_all is_dot body" and "0x29 \<notin> set body"
  shows "greedy_plus is_dot (\<lambda>g1.
           lit (ascii '', '') (greedy_plus is_dot (\<lambda>g2.
             lit (ascii '') -> '') (greedy_plus (is_word alnum) (\<lambda>g3.
               lit (ascii '' ['')
                 (greedy_star is_dot (\<lambda>g4. lit (ascii '']'') (\<lambda>r. Some (g1, g2, g3, g4))) []))))))
           (i @ ascii '', '' @ t @ ascii '') -> '' @ n @ ascii '' ['' @ body @ ascii '']'')
         = Some (i, t, n, body)"
proof (rule greedy_plus_commit [OF assms(1,2)])
  show "lit (ascii '', '') (greedy_plus is_dot (\<lambda>g2.
             lit (ascii '') -> '') (greedy_plus (is_word alnum) (\<lambda>g3.
               lit (ascii '' ['')
                 (greedy_star is_dot (\<lambda>g4. lit (ascii '']'') (\<lambda>r. Some (i, g2, g3, g4))) [])))))
          (ascii '', '' @ t @ ascii '') -> '' @ n @ ascii '' ['' @ body @ ascii '']'')
        = Some (i, t, n, body)"
    by (simp only: lit_append match_group2 [OF assms(3,4,6,7,8,9)])
  fix w v'
  assume split: "ascii '', '' @ t @ ascii '') -> '' @ n @ ascii '' ['' @ body @ ascii '']'' = w @ v'"
    and w: "w \<noteq> []"
  let ?K = "\<lambda>g2. greedy_plus (is_word alnum) (\<lambda>g3.
               lit (ascii '' ['')
                 (greedy_star is_dot (\<lambda>g4. lit (ascii '']'') (\<lambda>r. Some (i @ w, g2, g3, g4))) []))"
  let ?A = "ascii '', '' @ t @ ascii '') -> '' @ n @ ascii '' [''"
  let ?B = "body @ ascii '']''"
  have B: "0x29 \<notin> set ?B" using assms(9) by (simp add: lits)
  have A: "0x2C \<notin> set (tl ?A)"
    using assms(5) list_all_is_word_set [OF assms(7)] by (simp add: lits)
  from split have "?A @ ?B = w @ v'" by simp
  then obtain us where "(?A = w @ us \<and> us @ ?B = v') \<or> (?A @ us = w \<and> ?B = us @ v')"
    unfolding append_eq_append_conv2 by blast
  then consider (inB) "0x29 \<notin> set v'"
    | (inA) us' where "us' \<noteq> []" "?A = w @ us'" "v' = us' @ ?B"
  proof (elim disjE conjE)
    assume a: "?A = w @ us" and v: "us @ ?B = v'"
    show ?thesis
    proof (cases "us = []")
      case True
      with v B have "0x29 \<notin> set v'" by auto
      then show ?thesis by (rule that(1))
    next
      case False
      then show ?thesis using a v by (intro that(2) [of us]) auto
    qed
  next
    assume "?B = us @ v'"
    with B have "0x29 \<notin> set v'" by (metis Un_iff set_append)
    then show ?thesis by (rule that(1))
  qed
  then show "lit (ascii '', '') (greedy_plus is_dot (\<lambda>g2. lit (ascii '') -> '') (?K g2))) v' = None"
  proof cases
    case inB
    then show ?thesis by (rule lit_comma_None)
  next
    case inA
    from inA(2) w have "set us' \<subseteq> set (tl ?A)" by (cases w) auto
    with A have "0x2C \<notin> set us'" by blast
    with inA(1,3) have "\<not> startswith v' (ascii '', '')"
      by (cases us') (auto simp: startswith_def lits)
    then show ?thesis by (simp add: lit_def)
  qed
qed

text \<open>
  On a line written as the grammar has it, with no comma in the stack-top and no
  closing parenthesis in the push list, the four groups are the four parts as written.
\<close>

lemma match_transition_line:
  assumes "i \<noteq> []" and "list_all is_dot i"
    and "t \<noteq> []" and "list_all is_dot t" and "0x2C \<notin> set t"
    and "n \<noteq> []" and "list_all (is_word alnum) n"
    and "list_all is_dot body" and "0x29 \<notin> set body"
  shows "match_transition alnum
           (ascii ''('' @ i @ ascii '', '' @ t @ ascii '') -> '' @ n @ ascii '' ['' @ body
              @ ascii '']'')
           = Some (i, t, n, body)"
  unfolding match_transition_def lit_append by (rule match_group1 [OF assms])

subsection \<open>State headers and transition lines\<close>

lemma transition_entry_reserved:
  "transition_entry (i, t, n, body) =
     (TransitionFunctionInput (utf8 i) (utf8 (reserved_symbol t)),
      TransitionFunctionValue (utf8 n)
        (if body = [] then []
         else map (\<lambda>x. utf8 (reserved_symbol (py_strip x))) (py_split body (ascii '', ''))))"
  by (simp add: transition_entry_def reserved_symbol_def STACK_END_def INPUT_END_def Let_def
      py_split_def split_from_nonempty o_def)

lemma parse_lines_append:
  "parse_lines alnum v0 pre = Inr v \<Longrightarrow>
     parse_lines alnum v0 (pre @ line # rest) =
       (case parse_line alnum v line of
          Inl e \<Rightarrow> Inl e
        | Inr v' \<Rightarrow> parse_lines alnum v' rest)"
  by (induction pre arbitrary: v0) (auto split: sum.splits)

text \<open>
  A line that, stripped, matches the header pattern and is not a section line is a
  state header: it raises when the word is not a declared state, and opens the block of
  that state otherwise.
\<close>

lemma parse_line_header:
  assumes "match_header alnum (py_strip line)"
    and "butlast (py_strip line) \<notin> set section_keywords"
  shows "parse_line alnum v line =
           (if butlast (py_strip line) \<notin> set (states_loc v)
            then Inl (ValueError (utf8 (butlast (py_strip line))) (map utf8 (states_loc v)))
            else Inr (v\<lparr>current_state := Str (butlast (py_strip line))\<rparr>))"
proof -
  from match_header_Some [OF assms(1)] obtain w where w: "w \<noteq> []" "list_all (is_word alnum) w"
    and alt: "py_strip line = w @ ascii '':'' \<or> py_strip line = w @ ascii '':'' @ [0x0A]"
    by blast
  have s: "py_strip line = w @ [0x3A]"
  proof (rule disjE [OF alt])
    assume "py_strip line = w @ ascii '':''"
    then show ?thesis by (simp add: lits)
  next
    assume e: "py_strip line = w @ ascii '':'' @ [0x0A]"
    then have "py_strip line \<noteq> []" by simp
    from py_strip_last [OF this] e have "\<not> is_space 0x0A" by simp
    then have False by (simp add: is_space_def)
    then show ?thesis ..
  qed
  from w(1) obtain c cs where c: "w = c # cs" by (cases w) auto
  with w(2) have "is_word alnum c" by simp
  from is_word_chars [OF this] have hash: "\<not> startswith (w @ [0x3A]) (ascii ''#'')"
    using c by (simp add: startswith_def lits)
  have colon: "0x3A \<notin> set w" using list_all_is_word_set [OF w(2)] by simp
  from assms(2) s have nk: "w \<notin> set section_keywords" by simp
  have kw: "\<not> startswith (w @ [0x3A]) (k @ [0x3A])" if "k \<in> set section_keywords" for k
  proof -
    from that have "0x3A \<notin> set k" by (auto simp: section_keywords_def ascii_def)
    from startswith_keyword [OF colon this] that nk show ?thesis by auto
  qed
  have k1: "\<not> startswith (w @ [0x3A]) (ascii ''states:'')"
    using kw [of "ascii ''states''"] by (simp add: section_keywords_def ascii_def)
  have k2: "\<not> startswith (w @ [0x3A]) (ascii ''alphabet:'')"
    using kw [of "ascii ''alphabet''"] by (simp add: section_keywords_def ascii_def)
  have k3: "\<not> startswith (w @ [0x3A]) (ascii ''initial_state:'')"
    using kw [of "ascii ''initial_state''"] by (simp add: section_keywords_def ascii_def)
  have k4: "\<not> startswith (w @ [0x3A]) (ascii ''final_states:'')"
    using kw [of "ascii ''final_states''"] by (simp add: section_keywords_def ascii_def)
  have k5: "\<not> startswith (w @ [0x3A]) (ascii ''rejecting_states:'')"
    using kw [of "ascii ''rejecting_states''"] by (simp add: section_keywords_def ascii_def)
  have k6: "\<not> startswith (w @ [0x3A]) (ascii ''transition_function:'')"
    using kw [of "ascii ''transition_function''"] by (simp add: section_keywords_def ascii_def)
  have hd: "match_header alnum (w @ [0x3A])" using assms(1) s by simp
  show ?thesis
    unfolding parse_line_def s Let_def
    using hash k1 k2 k3 k4 k5 k6 hd w(1) by simp
qed

text \<open>
  The six section words with a colon are lines that the header pattern matches, and
  that the branches before the header branch take: none of them raises.
\<close>

lemma match_header_section_words:
  "k \<in> set section_keywords \<Longrightarrow> match_header alnum (k @ ascii '':'')"
  by (rule match_header_word) (auto simp: section_keywords_def ascii_def is_word_def)

lemma parse_line_section_words:
  "py_strip line = ascii ''states:'' \<Longrightarrow> parse_line alnum v line = Inr (v\<lparr>states_loc := [[]]\<rparr>)"
  "py_strip line = ascii ''alphabet:'' \<Longrightarrow> parse_line alnum v line = Inr (v\<lparr>alphabet_loc := [[]]\<rparr>)"
  "py_strip line = ascii ''initial_state:'' \<Longrightarrow>
     parse_line alnum v line = Inr (v\<lparr>initial_state_loc := Some []\<rparr>)"
  "py_strip line = ascii ''final_states:'' \<Longrightarrow>
     parse_line alnum v line = Inr (v\<lparr>final_states_loc := [[]]\<rparr>)"
  "py_strip line = ascii ''rejecting_states:'' \<Longrightarrow>
     parse_line alnum v line = Inr (v\<lparr>rejecting_states_loc := [[]]\<rparr>)"
  "py_strip line = ascii ''transition_function:'' \<Longrightarrow>
     parse_line alnum v line = Inr (v\<lparr>current_state := PyNone\<rparr>)"
  by (simp_all add: parse_line_def Let_def startswith_def ascii_def after_colon_def py_split_def
      py_index_def py_strip_def)

text \<open>
  C6, as the claim states it, fails for each of the six words that open a section line:
  inside the transition section a line made of such a word and a colon matches
  \<open>word:\<close>, and the word is not a declared state, yet an earlier branch of the chain of
  lines 160 to 171 takes the line, nothing is raised, and \<open>create_from_file\<close> returns an
  automaton.
\<close>

theorem create_from_file_section_word_counterexample:
  "match_header (\<lambda>c. False) (ascii ''states:'') \<and>
   create_from_file (\<lambda>c. False)
     (map ascii [''states: q0'' @ [CHR 0x0A], ''transition_function:'' @ [CHR 0x0A],
                 ''    states:'' @ [CHR 0x0A]])
   = Inr \<lparr> state = [], stack = [''>''], transitions = Map.empty, states = [[]],
           alphabet = [], final_states = [], rejecting_states = [], initial_state = [] \<rparr> \<and>
   match_header (\<lambda>c. False) (ascii ''alphabet:'') \<and>
   create_from_file (\<lambda>c. False)
     (map ascii [''states: q0'' @ [CHR 0x0A], ''transition_function:'' @ [CHR 0x0A],
                 ''    alphabet:'' @ [CHR 0x0A]])
   = Inr \<lparr> state = ''q0'', stack = [''>''], transitions = Map.empty, states = [''q0''],
           alphabet = [[]], final_states = [], rejecting_states = [],
           initial_state = ''q0'' \<rparr> \<and>
   match_header (\<lambda>c. False) (ascii ''initial_state:'') \<and>
   create_from_file (\<lambda>c. False)
     (map ascii [''states: q0'' @ [CHR 0x0A], ''transition_function:'' @ [CHR 0x0A],
                 ''    initial_state:'' @ [CHR 0x0A]])
   = Inr \<lparr> state = [], stack = [''>''], transitions = Map.empty, states = [''q0''],
           alphabet = [], final_states = [], rejecting_states = [], initial_state = [] \<rparr> \<and>
   match_header (\<lambda>c. False) (ascii ''final_states:'') \<and>
   create_from_file (\<lambda>c. False)
     (map ascii [''states: q0'' @ [CHR 0x0A], ''transition_function:'' @ [CHR 0x0A],
                 ''    final_states:'' @ [CHR 0x0A]])
   = Inr \<lparr> state = ''q0'', stack = [''>''], transitions = Map.empty, states = [''q0''],
           alphabet = [], final_states = [[]], rejecting_states = [],
           initial_state = ''q0'' \<rparr> \<and>
   match_header (\<lambda>c. False) (ascii ''rejecting_states:'') \<and>
   create_from_file (\<lambda>c. False)
     (map ascii [''states: q0'' @ [CHR 0x0A], ''transition_function:'' @ [CHR 0x0A],
                 ''    rejecting_states:'' @ [CHR 0x0A]])
   = Inr \<lparr> state = ''q0'', stack = [''>''], transitions = Map.empty, states = [''q0''],
           alphabet = [], final_states = [], rejecting_states = [[]],
           initial_state = ''q0'' \<rparr> \<and>
   match_header (\<lambda>c. False) (ascii ''transition_function:'') \<and>
   create_from_file (\<lambda>c. False)
     (map ascii [''states: q0'' @ [CHR 0x0A], ''transition_function:'' @ [CHR 0x0A],
                 ''    transition_function:'' @ [CHR 0x0A]])
   = Inr \<lparr> state = ''q0'', stack = [''>''], transitions = Map.empty, states = [''q0''],
           alphabet = [], final_states = [], rejecting_states = [],
           initial_state = ''q0'' \<rparr>"
  by (simp add: create_from_file_def parse_line_def initial_locals_def py_strip_def
     is_space_def startswith_def match_header_def lit_def is_word_def after_colon_def py_split_def
     py_index_def automata_init_def py_first_def Let_def STACK_END_def ascii_def
     utf8_def utf8_char_def char_of_eval)

text \<open>
  C6, amended. When \<open>create_from_file\<close> meets a state header, a line that stripped
  matches \<open>word:\<close> and whose word is not one of the six section words, and the word is
  not in the list of states declared so far, it raises the \<open>ValueError\<close> formatted from
  that word and that list, whatever lines follow. This holds for every table \<open>alnum\<close> of
  the non-ASCII word characters.
\<close>

theorem create_from_file_undeclared_state:
  assumes "parse_lines alnum initial_locals pre = Inr v"
    and "match_header alnum (py_strip line)"
    and "butlast (py_strip line) \<notin> set section_keywords"
    and "butlast (py_strip line) \<notin> set (states_loc v)"
  shows "create_from_file alnum (pre @ line # rest)
           = Inl (ValueError (utf8 (butlast (py_strip line))) (map utf8 (states_loc v)))"
  unfolding create_from_file_def parse_lines_append [OF assms(1)]
    parse_line_header [OF assms(2,3)]
  using assms(4) by simp

theorem create_from_file_undeclared_state_witness:
  "create_from_file (\<lambda>c. c = 0xE9)
     (map ascii [''states: q0, qA'' @ [CHR 0x0A], ''transition_function:'' @ [CHR 0x0A]]
        @ ([0xA0, 0x20] @ ascii ''q'' @ [0xE9] @ ascii '':'' @ [0x0A])
        # [ascii (''        (0, >) -> qA []'' @ [CHR 0x0A])])
     = Inl (ValueError (utf8 (ascii ''q'' @ [0xE9])) [''q0'', ''qA''])"
proof -
  let ?v = "initial_locals\<lparr>states_loc := [ascii ''q0'', ascii ''qA''], current_state := PyNone\<rparr>"
  let ?line = "[0xA0, 0x20] @ ascii ''q'' @ [0xE9] @ ascii '':'' @ [0x0A]"
  have p: "parse_lines (\<lambda>c. c = 0xE9) initial_locals
             (map ascii [''states: q0, qA'' @ [CHR 0x0A], ''transition_function:'' @ [CHR 0x0A]])
           = Inr ?v"
    by (simp add: parse_line_def initial_locals_def py_strip_def is_space_def startswith_def
        after_colon_def py_split_def py_index_def Let_def ascii_def)
  have s: "py_strip ?line = ascii ''q'' @ [0xE9] @ ascii '':''"
    by (simp add: py_strip_def is_space_def ascii_def)
  have 1: "match_header (\<lambda>c. c = 0xE9) (py_strip ?line)"
    unfolding s by (simp add: match_header_def is_word_def lit_def startswith_def ascii_def)
  have 2: "butlast (py_strip ?line) \<notin> set section_keywords"
    unfolding s by (simp add: section_keywords_def ascii_def)
  have 3: "butlast (py_strip ?line) \<notin> set (states_loc ?v)"
    unfolding s by (simp add: ascii_def)
  from create_from_file_undeclared_state [OF p 1 2 3,
      of "[ascii (''        (0, >) -> qA []'' @ [CHR 0x0A])]"]
  show ?thesis
    unfolding s by (simp add: ascii_def utf8_def utf8_char_def char_of_eval)
qed

text \<open>
  C7, amended. For every line under a state header that the transition pattern
  matches, the parser stores one entry: the stack-top of the key and every entry of the
  push list, stripped of the whitespace around it, are rewritten from \<open>STACK_END\<close> and
  \<open>INPUT_END\<close> to the sentinel and the marker, and every other token in these two
  positions stands for itself.
\<close>

theorem parse_line_transition:
  assumes "current_state v = Str cs" and "cs \<noteq> []"
    and "match_transition alnum (py_strip line) = Some (i, t, n, body)"
  shows "parse_line alnum v line =
     Inr (v\<lparr>transition_function_loc :=
            store_transition (transition_function_loc v) (utf8 cs)
              (TransitionFunctionInput (utf8 i) (utf8 (reserved_symbol t)),
               TransitionFunctionValue (utf8 n)
                 (if body = [] then []
                  else map (\<lambda>x. utf8 (reserved_symbol (py_strip x)))
                         (py_split body (ascii '', ''))))\<rparr>)"
proof -
  from match_transition_Some [OF assms(3)] obtain rest where
    "py_strip line = ascii ''('' @ i @ ascii '', '' @ t @ ascii '') -> '' @ n @ ascii '' [''
                       @ body @ ascii '']'' @ rest"
    by blast
  then have paren: "py_strip line = 0x28 # (i @ ascii '', '' @ t @ ascii '') -> '' @ n
                       @ ascii '' ['' @ body @ ascii '']'' @ rest)"
    and arrow: "py_strip line = (ascii ''('' @ i @ ascii '', '' @ t @ [0x29, 0x20]) @ ascii ''->''
                       @ ([0x20] @ n @ ascii '' ['' @ body @ ascii '']'' @ rest)"
    by (simp_all add: lits)
  let ?s = "py_strip line"
  have first: "\<not> startswith ?s (ascii ''#'')" "\<not> startswith ?s (ascii ''states:'')"
    "\<not> startswith ?s (ascii ''alphabet:'')" "\<not> startswith ?s (ascii ''initial_state:'')"
    "\<not> startswith ?s (ascii ''final_states:'')" "\<not> startswith ?s (ascii ''rejecting_states:'')"
    "\<not> startswith ?s (ascii ''transition_function:'')"
    unfolding paren by (simp_all add: startswith_def ascii_def)
  have nonempty: "?s \<noteq> []" unfolding paren by simp
  have header: "\<not> match_header alnum ?s"
    unfolding paren by (rule match_header_first) (simp add: is_word_def)
  have "py_contains (ascii ''->'') ((ascii ''('' @ i @ ascii '', '' @ t @ [0x29, 0x20]) @ ascii ''->''
                       @ ([0x20] @ n @ ascii '' ['' @ body @ ascii '']'' @ rest))"
    by (rule py_contains_append) (simp add: lits)
  then have contains: "py_contains (ascii ''->'') ?s" unfolding arrow .
  show ?thesis
    unfolding parse_line_def Let_def
    using first nonempty header contains assms
    by (simp add: transition_entry_reserved)
qed

theorem parse_line_transition_witness:
  "parse_line (\<lambda>c. False) (initial_locals\<lparr>current_state := Str (ascii ''q0'')\<rparr>)
     (ascii ''        (0, STACK_END) -> q1 [INPUT_END, '' @ [0x3000] @ ascii ''x , STACK_END''
        @ [0xA0] @ ascii '']'' @ [0x0A])
   = Inr (initial_locals\<lparr>current_state := Str (ascii ''q0''),
       transition_function_loc :=
         [''q0'' \<mapsto> [TransitionFunctionInput ''0'' ''>''
                      \<mapsto> TransitionFunctionValue ''q1'' [''<'', ''x'', ''>'']]]\<rparr>)"
proof -
  let ?v = "initial_locals\<lparr>current_state := Str (ascii ''q0'')\<rparr>"
  let ?line = "ascii ''        (0, STACK_END) -> q1 [INPUT_END, '' @ [0x3000] @ ascii ''x , STACK_END''
        @ [0xA0] @ ascii '']'' @ [0x0A]"
  let ?body = "ascii ''INPUT_END, '' @ [0x3000] @ ascii ''x , STACK_END'' @ [0xA0]"
  have 1: "current_state ?v = Str (ascii ''q0'')" by simp
  have 2: "ascii ''q0'' \<noteq> []" by (simp add: ascii_def)
  have 3: "match_transition (\<lambda>c. False) (py_strip ?line)
             = Some (ascii ''0'', ascii ''STACK_END'', ascii ''q1'', ?body)"
    by (simp add: match_transition_def py_strip_def is_space_def lit_def startswith_def
        is_dot_def is_word_def ascii_def)
  from parse_line_transition [OF 1 2 3]
  show ?thesis
    by (simp add: initial_locals_def store_transition_def reserved_symbol_def py_strip_def
        py_split_def is_space_def startswith_def ascii_def utf8_def utf8_char_def char_of_eval)
qed

text \<open>
  C7, as the claim states it, fails: in \<open>example_file\<close> the name \<open>INPUT_END\<close> stays as it
  is written in the alphabet and in the input-symbol position of a key, while the
  \<open>STACK_END\<close> of the stack-top position and of the push lists becomes \<open>>\<close>.
\<close>

theorem parse_reserved_names_counterexample:
  "create_from_file (\<lambda>c. False) example_file =
     Inr \<lparr> state = ''q0'', stack = [''>''],
           transitions =
             [''q0'' \<mapsto> [TransitionFunctionInput ''0'' ''>''
                            \<mapsto> TransitionFunctionValue ''q0'' [''>'', ''0''],
                          TransitionFunctionInput ''INPUT_END'' ''>''
                            \<mapsto> TransitionFunctionValue ''qA'' [''>'']]],
           states = [''q0'', ''qA''], alphabet = [''0'', ''INPUT_END''],
           final_states = [''qA''], rejecting_states = [], initial_state = ''q0'' \<rparr>"
  by (simp add: create_from_file_def example_file_def parse_line_def initial_locals_def py_strip_def
     is_space_def startswith_def match_header_def lit_def is_word_def after_colon_def py_split_def
     py_index_def match_transition_def is_dot_def transition_entry_def store_transition_def
     automata_init_def Let_def STACK_END_def INPUT_END_def ascii_def utf8_def utf8_char_def
     char_of_eval)

end
